theory Spec2Isabelle
  imports Main "HOL-Library.Word" "HOL-Library.Char_ord" "HOL-Library.List_Lexorder"
begin

section \<open>Data model of the client orchestrator (pebble_client.cpp)\<close>

text \<open>
  Handles are \<^verbatim>\<open>int64_t\<close>, status codes \<^verbatim>\<open>int32_t\<close>. A C++ pointer is either
  \<^verbatim>\<open>NULL\<close> or the address of an object; objects are only compared by address here.
\<close>

type_synonym int64_t = "64 word"
type_synonym int32_t = "32 word"
type_synonym uint32_t = "32 word"
type_synonym uint8_t = "8 word"

datatype ptr = NULL | Addr nat

text \<open>The two fields of \<^verbatim>\<open>MsgExternInfo\<close> that the client reads.\<close>

record MsgExternInfo =
  self_handle :: int64_t
  remote_handle :: int64_t

text \<open>Log records: the macro used and its format string.\<close>

datatype log_entry = PLOG_ERROR string | PLOG_FATAL string | PLOG_INFO string

text \<open>
  Calls that the client makes on collaborating objects, in the order they are made.
  \<open>IProcessor_OnMessage p h msg len info ov\<close> is
  \<^verbatim>\<open>p->OnMessage(h, msg, len, info, ov)\<close>.
\<close>

datatype call =
    IProcessor_OnMessage ptr int64_t "uint8_t list" uint32_t MsgExternInfo uint32_t
  | Router_SetOnAddressChanged ptr ptr
  | Router_Init ptr ptr
  | RouterFactory_GetRouter nat string
  | NamingFactory_GetNaming nat
  | RegisterErrorString
  | InitLog
  | SequenceTimer_StartTimer ptr
  | CoroutineSchedule_Init ptr
  | StatManager_SetReportCycle ptr
  | StatManager_SetGdataParameter ptr
  | StatManager_Init ptr
  | Message_Init
  | SetRouterFactory
  | signal_SIGPIPE_SIG_IGN
  | Message_Update
  | Naming_Update ptr
  | IProcessor_Update ptr
  | SequenceTimer_Update ptr
  | SessionMgr_CheckTimeout ptr
  | StatManager_Update ptr
  | Stat_AddResourceItem string

text \<open>
  The members of \<^verbatim>\<open>PebbleClient\<close>. The two \<^verbatim>\<open>unordered_map\<close>s keyed by handle and by
  router, and the router cache keyed by name, are partial maps. \<open>log\<close> and \<open>calls\<close>
  record what the object wrote to the log and which collaborator calls it made;
  \<open>next_addr\<close> is the address the next \<^verbatim>\<open>new\<close> returns.
\<close>

record PebbleClient =
  m_processor_map :: "int64_t \<rightharpoonup> ptr"
  m_router_handle_map :: "ptr \<rightharpoonup> int64_t list"
  m_router_map :: "string \<rightharpoonup> ptr"
  m_naming_array :: "nat \<Rightarrow> ptr"
  m_processor_array :: "nat \<Rightarrow> ptr"
  m_timer :: ptr
  m_session_mgr :: ptr
  m_stat_manager :: ptr
  m_coroutine_schedule :: ptr
  m_last_msg_info :: MsgExternInfo
  log :: "log_entry list"
  calls :: "call list"
  next_addr :: nat

definition plog :: "log_entry \<Rightarrow> PebbleClient \<Rightarrow> PebbleClient" where
  "plog e c = c\<lparr>log := log c @ [e]\<rparr>"

definition do_call :: "call \<Rightarrow> PebbleClient \<Rightarrow> PebbleClient" where
  "do_call x c = c\<lparr>calls := calls c @ [x]\<rparr>"

section \<open>The processor registry\<close>

text \<open>\<^verbatim>\<open>int32_t PebbleClient::Attach(int64_t handle, IProcessor* processor)\<close>\<close>

definition Attach :: "int64_t \<Rightarrow> ptr \<Rightarrow> PebbleClient \<Rightarrow> int32_t \<times> PebbleClient" where
  "Attach handle processor c =
     (if processor = NULL
      then (- 1, plog (PLOG_ERROR ''param processor is NULL'') c)
      else (0, c\<lparr>m_processor_map := (m_processor_map c)(handle \<mapsto> processor)\<rparr>))"

text \<open>
  \<^verbatim>\<open>int32_t PebbleClient::Detach(int64_t handle)\<close>: \<^verbatim>\<open>erase\<close> returns the number of
  elements removed, which is 1 exactly when the key was present.
\<close>

definition Detach :: "int64_t \<Rightarrow> PebbleClient \<Rightarrow> int32_t \<times> PebbleClient" where
  "Detach handle c =
     (let num = (if handle \<in> dom (m_processor_map c) then 1 else 0 :: nat)
      in (if num = 1 then 0 else - 1,
          c\<lparr>m_processor_map := (m_processor_map c)(handle := None)\<rparr>))"

text \<open>
  \<^verbatim>\<open>int32_t PebbleClient::OnMessage(const uint8_t* msg, uint32_t msg_len, MsgExternInfo* info)\<close>
\<close>

definition OnMessage ::
  "uint8_t list \<Rightarrow> uint32_t \<Rightarrow> MsgExternInfo \<Rightarrow> PebbleClient \<Rightarrow> int32_t \<times> PebbleClient" where
  "OnMessage msg msg_len info c =
     (case m_processor_map c (self_handle info) of
        None \<Rightarrow> (1, plog (PLOG_ERROR ''handle(%ld) not attach a processor remote(%ld)'') c)
      | Some p \<Rightarrow>
          (1, do_call (IProcessor_OnMessage p (remote_handle (m_last_msg_info c))
                         msg msg_len info 0) c))"

text \<open>The sequence of registry calls made by a caller, and its effect on the client.\<close>

datatype registry_op = Attach_op int64_t ptr | Detach_op int64_t

fun apply_op :: "registry_op \<Rightarrow> PebbleClient \<Rightarrow> PebbleClient" where
  "apply_op (Attach_op h p) c = snd (Attach h p c)"
| "apply_op (Detach_op h) c = snd (Detach h c)"

fun run_ops :: "registry_op list \<Rightarrow> PebbleClient \<Rightarrow> PebbleClient" where
  "run_ops [] c = c"
| "run_ops (x # xs) c = run_ops xs (apply_op x c)"

text \<open>An \<open>Attach\<close> call that carries a processor (not the null pointer).\<close>

fun carries_processor :: "registry_op \<Rightarrow> bool" where
  "carries_processor (Attach_op h p) = (p \<noteq> NULL)"
| "carries_processor (Detach_op h) = True"

text \<open>
  The specification's reading of a call history for handle \<open>h\<close>, most recent call first:
  the processor of the most recent \<open>Attach\<close> of \<open>h\<close> unless a \<open>Detach\<close> of \<open>h\<close> came
  after it; \<open>d\<close> is the mapping before the first call.
\<close>

fun most_recent :: "int64_t \<Rightarrow> registry_op list \<Rightarrow> ptr option \<Rightarrow> ptr option" where
  "most_recent h [] d = d"
| "most_recent h (Attach_op h' p # older) d = (if h' = h then Some p else most_recent h older d)"
| "most_recent h (Detach_op h' # older) d = (if h' = h then None else most_recent h older d)"

definition latest_attach :: "int64_t \<Rightarrow> registry_op list \<Rightarrow> ptr option \<Rightarrow> ptr option" where
  "latest_attach h ops d = most_recent h (rev ops) d"

text \<open>The processor calls that one \<open>OnMessage\<close> adds to the call record.\<close>

definition dispatched ::
  "uint8_t list \<Rightarrow> uint32_t \<Rightarrow> MsgExternInfo \<Rightarrow> PebbleClient \<Rightarrow> call list" where
  "dispatched msg msg_len info c =
     drop (length (calls c)) (calls (snd (OnMessage msg msg_len info c)))"

text \<open>The error records that one \<open>OnMessage\<close> adds to the log.\<close>

definition reported ::
  "uint8_t list \<Rightarrow> uint32_t \<Rightarrow> MsgExternInfo \<Rightarrow> PebbleClient \<Rightarrow> log_entry list" where
  "reported msg msg_len info c =
     drop (length (log c)) (log (snd (OnMessage msg msg_len info c)))"

text \<open>
  The constructor \<^verbatim>\<open>PebbleClient::PebbleClient()\<close>: every pointer member is null and
  every container is empty. The default value of \<^verbatim>\<open>m_last_msg_info\<close> is that of
  \<^verbatim>\<open>MsgExternInfo\<close>'s own constructor, a parameter here.
\<close>

definition PebbleClient_new :: "MsgExternInfo \<Rightarrow> PebbleClient" where
  "PebbleClient_new info0 =
     \<lparr> m_processor_map = Map.empty, m_router_handle_map = Map.empty,
       m_router_map = Map.empty, m_naming_array = (\<lambda>i. NULL),
       m_processor_array = (\<lambda>i. NULL), m_timer = NULL, m_session_mgr = NULL,
       m_stat_manager = NULL, m_coroutine_schedule = NULL, m_last_msg_info = info0,
       log = [], calls = [], next_addr = 1 \<rparr>"

section \<open>Router reconciliation\<close>

text \<open>The two loops of \<^verbatim>\<open>OnRouterAddressChanged\<close>; the status of each call is discarded.\<close>

fun attach_each :: "int64_t list \<Rightarrow> ptr \<Rightarrow> PebbleClient \<Rightarrow> PebbleClient" where
  "attach_each [] processor c = c"
| "attach_each (h # hs) processor c = attach_each hs processor (snd (Attach h processor c))"

fun detach_each :: "int64_t list \<Rightarrow> PebbleClient \<Rightarrow> PebbleClient" where
  "detach_each [] c = c"
| "detach_each (h # hs) c = detach_each hs (snd (Detach h c))"

text \<open>
  \<^verbatim>\<open>void PebbleClient::OnRouterAddressChanged(Router* router,
      const std::vector<int64_t>& handles, IProcessor* processor)\<close>
\<close>

definition OnRouterAddressChanged ::
  "ptr \<Rightarrow> int64_t list \<Rightarrow> ptr \<Rightarrow> PebbleClient \<Rightarrow> PebbleClient" where
  "OnRouterAddressChanged router handles processor c =
     (case m_router_handle_map c router of
        None \<Rightarrow>
          (let c1 = attach_each handles processor c
           in c1\<lparr>m_router_handle_map := (m_router_handle_map c1)(router \<mapsto> handles)\<rparr>)
      | Some old \<Rightarrow>
          (let c1 = detach_each old c;
               c2 = attach_each handles processor c1
           in c2\<lparr>m_router_handle_map := (m_router_handle_map c2)(router \<mapsto> handles)\<rparr>))"

text \<open>
  \<^verbatim>\<open>int32_t PebbleClient::Attach(Router* router, IProcessor* processor)\<close>: the only
  place that binds \<open>OnRouterAddressChanged\<close> as a router's callback.
\<close>

definition Attach_router :: "ptr \<Rightarrow> ptr \<Rightarrow> PebbleClient \<Rightarrow> int32_t \<times> PebbleClient" where
  "Attach_router router processor c =
     (if router = NULL \<or> processor = NULL
      then (- 1, plog (PLOG_ERROR ''param error. &router = %p &processor = %p'') c)
      else (0, do_call (Router_SetOnAddressChanged router processor) c))"

text \<open>The handles most recently delivered by a router, none before its first delivery.\<close>

definition delivered :: "PebbleClient \<Rightarrow> ptr \<Rightarrow> int64_t list" where
  "delivered c router = (case m_router_handle_map c router of None \<Rightarrow> [] | Some old \<Rightarrow> old)"

text \<open>Successive deliveries \<open>S\<^sub>1, \<dots>, S\<^sub>n\<close> of one router to its processor.\<close>

fun deliver_all :: "ptr \<Rightarrow> ptr \<Rightarrow> int64_t list list \<Rightarrow> PebbleClient \<Rightarrow> PebbleClient" where
  "deliver_all router processor [] c = c"
| "deliver_all router processor (S # Ss) c =
     deliver_all router processor Ss (OnRouterAddressChanged router S processor c)"

section \<open>Collaborators\<close>

text \<open>
  What the client reads from code outside this file: the two enumeration bounds, the
  default argument of \<^verbatim>\<open>GetNaming\<close>, the factory registries behind
  \<^verbatim>\<open>GetRouterFactory\<close> and \<^verbatim>\<open>GetNamingFactory\<close> (a null pointer when no factory is
  registered for the type), and the status or count that each call on a collaborating
  object returns.
\<close>

record collaborators =
  kNAMING_BUTT :: nat
  kPROTOCOL_TYPE_BUTT :: nat
  default_naming_type :: nat
  GetRouterFactory :: "nat \<Rightarrow> ptr"
  GetNamingFactory :: "nat \<Rightarrow> ptr"
  Router_Init_result :: "string \<Rightarrow> ptr \<Rightarrow> int32_t"
  StartTimer_result :: int64_t
  CoroutineSchedule_Init_result :: int32_t
  StatManager_Init_result :: int32_t
  Message_Init_result :: int32_t
  SetRouterFactory_result :: int32_t
  Message_Update_result :: int32_t
  Naming_Update_result :: "ptr \<Rightarrow> int32_t"
  IProcessor_Update_result :: "ptr \<Rightarrow> int32_t"
  Timer_Update_result :: int32_t
  CheckTimeout_result :: int32_t
  StatManager_Update_result :: int32_t

text \<open>\<^verbatim>\<open>new T()\<close>: a fresh, non-null address.\<close>

definition new_object :: "PebbleClient \<Rightarrow> ptr \<times> PebbleClient" where
  "new_object c = (Addr (next_addr c), c\<lparr>next_addr := Suc (next_addr c)\<rparr>)"

section \<open>Naming backends and routers\<close>

text \<open>\<^verbatim>\<open>Naming* PebbleClient::GetNaming(NamingType naming_type)\<close>\<close>

definition GetNaming :: "collaborators \<Rightarrow> nat \<Rightarrow> PebbleClient \<Rightarrow> ptr \<times> PebbleClient" where
  "GetNaming env naming_type c =
     (if m_naming_array c naming_type \<noteq> NULL then (m_naming_array c naming_type, c)
      else if GetNamingFactory env naming_type = NULL
      then (NULL, plog (PLOG_ERROR ''unsupport naming_type %d'') c)
      else (let (naming, c1) = new_object (do_call (NamingFactory_GetNaming naming_type) c)
            in (naming, c1\<lparr>m_naming_array := (m_naming_array c1)(naming_type := naming)\<rparr>)))"

text \<open>
  \<^verbatim>\<open>Router* PebbleClient::GetRouter(const std::string& name, RouterType router_type)\<close>.
  The factory's \<^verbatim>\<open>GetRouter(name)\<close> constructs a router; the status of
  \<^verbatim>\<open>router->Init(GetNaming())\<close> is only logged.
\<close>

definition GetRouter ::
  "collaborators \<Rightarrow> string \<Rightarrow> nat \<Rightarrow> PebbleClient \<Rightarrow> ptr \<times> PebbleClient" where
  "GetRouter env name router_type c =
     (if name = [] then (NULL, plog (PLOG_ERROR ''name is empty'') c)
      else case m_router_map c name of
        Some r \<Rightarrow> (r, c)
      | None \<Rightarrow>
          if GetRouterFactory env router_type = NULL
          then (NULL, plog (PLOG_ERROR ''unsupport router_type %d'') c)
          else (let (router, c1) = new_object (do_call (RouterFactory_GetRouter router_type name) c);
                    (naming, c2) = GetNaming env (default_naming_type env) c1;
                    ret = Router_Init_result env name naming;
                    c3 = do_call (Router_Init router naming) c2;
                    c4 = (if ret \<noteq> 0 then plog (PLOG_ERROR ''router %s init failed(%d)'') c3
                          else c3)
                in (router, c4\<lparr>m_router_map := (m_router_map c4)(name \<mapsto> router)\<rparr>)))"

text \<open>Later \<open>GetRouter\<close> calls, for any names and router types.\<close>

fun get_routers :: "collaborators \<Rightarrow> (string \<times> nat) list \<Rightarrow> PebbleClient \<Rightarrow> PebbleClient" where
  "get_routers env [] c = c"
| "get_routers env ((name, router_type) # rest) c =
     get_routers env rest (snd (GetRouter env name router_type c))"

text \<open>A pointer to an object that \<^verbatim>\<open>new\<close> returned before the allocator reached \<open>n\<close>.\<close>

fun allocated_before :: "nat \<Rightarrow> ptr \<Rightarrow> bool" where
  "allocated_before n NULL = False"
| "allocated_before n (Addr a) = (a < n)"

text \<open>
  The router cache is well formed: every cached router is an allocated object, and no
  router is cached under two names.
\<close>

definition cache_ok :: "PebbleClient \<Rightarrow> bool" where
  "cache_ok c =
     ((\<forall>name r. m_router_map c name = Some r \<longrightarrow> allocated_before (next_addr c) r)
      \<and> (\<forall>n1 n2 r. m_router_map c n1 = Some r \<longrightarrow> m_router_map c n2 = Some r \<longrightarrow> n1 = n2))"

text \<open>The routers constructed so far: the calls of a factory's \<^verbatim>\<open>GetRouter(name)\<close>.\<close>

fun is_router_creation :: "call \<Rightarrow> bool" where
  "is_router_creation (RouterFactory_GetRouter t name) = True"
| "is_router_creation x = False"

definition routers_created :: "PebbleClient \<Rightarrow> call list" where
  "routers_created c = filter is_router_creation (calls c)"

section \<open>Initialisation\<close>

text \<open>\<^verbatim>\<open>int32_t PebbleClient::InitTimer()\<close>\<close>

definition InitTimer :: "collaborators \<Rightarrow> PebbleClient \<Rightarrow> int32_t \<times> PebbleClient" where
  "InitTimer env c =
     (let c1 = (if m_timer c = NULL
                then (let (t, c') = new_object c in c'\<lparr>m_timer := t\<rparr>)
                else c);
          ret = StartTimer_result env;
          c2 = do_call (SequenceTimer_StartTimer (m_timer c1)) c1
      in if sint ret < 0
         then (- 1, plog (PLOG_ERROR ''start stat timer failed(%d:%s)'') c2)
         else (0, c2))"

text \<open>\<^verbatim>\<open>int32_t PebbleClient::InitCoSchedule()\<close>\<close>

definition InitCoSchedule :: "collaborators \<Rightarrow> PebbleClient \<Rightarrow> int32_t \<times> PebbleClient" where
  "InitCoSchedule env c =
     (if m_coroutine_schedule c \<noteq> NULL then (0, c)
      else (let (s, c1) = new_object c;
                c2 = do_call (CoroutineSchedule_Init s) (c1\<lparr>m_coroutine_schedule := s\<rparr>);
                ret = CoroutineSchedule_Init_result env
            in if ret \<noteq> 0
               then (- 1, plog (PLOG_ERROR ''co schedule init failed(%d)'')
                            (c2\<lparr>m_coroutine_schedule := NULL\<rparr>))
               else (0, c2)))"

text \<open>\<^verbatim>\<open>int32_t PebbleClient::InitStat()\<close>: the status of the manager's own \<^verbatim>\<open>Init\<close>.\<close>

definition InitStat :: "collaborators \<Rightarrow> PebbleClient \<Rightarrow> int32_t \<times> PebbleClient" where
  "InitStat env c =
     (let c1 = (if m_stat_manager c = NULL
                then (let (m, c') = new_object c in c'\<lparr>m_stat_manager := m\<rparr>)
                else c);
          c2 = do_call (StatManager_SetReportCycle (m_stat_manager c1)) c1;
          c3 = do_call (StatManager_SetGdataParameter (m_stat_manager c1)) c2
      in (StatManager_Init_result env, do_call (StatManager_Init (m_stat_manager c1)) c3))"

text \<open>
  \<^verbatim>\<open>int32_t PebbleClient::Init()\<close>. \<^verbatim>\<open>CHECK_RETURN(ret)\<close> is
  \<^verbatim>\<open>if (ret) { return -1; }\<close>.
\<close>

definition Init :: "collaborators \<Rightarrow> PebbleClient \<Rightarrow> int32_t \<times> PebbleClient" where
  "Init env c =
     (let c0 = plog (PLOG_INFO ''%s'') (do_call InitLog (do_call RegisterErrorString c));
          (ret, c1) = InitTimer env c0
      in if ret \<noteq> 0 then (- 1, c1)
         else (let (ret, c2) = InitCoSchedule env c1
               in if ret \<noteq> 0 then (- 1, c2)
                  else (let (ret, c3) = InitStat env c2
                        in if ret \<noteq> 0 then (- 1, c3)
                           else (let ret = Message_Init_result env;
                                     c4 = do_call Message_Init c3
                                 in if ret \<noteq> 0 then (- 1, c4)
                                    else (let ret = SetRouterFactory_result env;
                                              c5 = do_call SetRouterFactory c4
                                          in if ret \<noteq> 0 then (- 1, c5)
                                             else (0, do_call signal_SIGPIPE_SIG_IGN c5))))))"

text \<open>
  Collaborators whose every call succeeds and reports no event, with two naming types
  and three protocol types; the variations below change one result each.
\<close>

definition quiet :: collaborators where
  "quiet =
     \<lparr> kNAMING_BUTT = 2, kPROTOCOL_TYPE_BUTT = 3, default_naming_type = 0,
       GetRouterFactory = (\<lambda>t. Addr 0), GetNamingFactory = (\<lambda>t. Addr 0),
       Router_Init_result = (\<lambda>name naming. 0), StartTimer_result = 0,
       CoroutineSchedule_Init_result = 0, StatManager_Init_result = 0,
       Message_Init_result = 0, SetRouterFactory_result = 0, Message_Update_result = 0,
       Naming_Update_result = (\<lambda>n. 0), IProcessor_Update_result = (\<lambda>p. 0),
       Timer_Update_result = 0, CheckTimeout_result = 0, StatManager_Update_result = 0 \<rparr>"

section \<open>The update pass\<close>

text \<open>
  The loop over \<^verbatim>\<open>m_naming_array\<close>: each non-null backend is updated and its count is
  added to \<open>num\<close>.
\<close>

fun update_namings ::
  "collaborators \<Rightarrow> nat list \<Rightarrow> int32_t \<times> PebbleClient \<Rightarrow> int32_t \<times> PebbleClient" where
  "update_namings env [] (num, c) = (num, c)"
| "update_namings env (i # rest) (num, c) =
     (if m_naming_array c i \<noteq> NULL
      then update_namings env rest
             (num + Naming_Update_result env (m_naming_array c i),
              do_call (Naming_Update (m_naming_array c i)) c)
      else update_namings env rest (num, c))"

text \<open>
  The loop over \<^verbatim>\<open>m_processor_array\<close>: each non-null processor is updated; what its
  \<^verbatim>\<open>Update()\<close> returns is not used.
\<close>

fun update_processors ::
  "collaborators \<Rightarrow> nat list \<Rightarrow> int32_t \<times> PebbleClient \<Rightarrow> int32_t \<times> PebbleClient" where
  "update_processors env [] (num, c) = (num, c)"
| "update_processors env (i # rest) (num, c) =
     (if m_processor_array c i \<noteq> NULL
      then update_processors env rest (num, do_call (IProcessor_Update (m_processor_array c i)) c)
      else update_processors env rest (num, c))"

text \<open>\<^verbatim>\<open>int32_t PebbleClient::Update()\<close>\<close>

definition Update :: "collaborators \<Rightarrow> PebbleClient \<Rightarrow> int32_t \<times> PebbleClient" where
  "Update env c =
     (let num = 0;
          (num, c1) = (num + Message_Update_result env, do_call Message_Update c);
          (num, c2) = update_namings env [0 ..< kNAMING_BUTT env] (num, c1);
          (num, c3) = update_processors env [0 ..< kPROTOCOL_TYPE_BUTT env] (num, c2);
          (num, c4) = (if m_timer c3 \<noteq> NULL
                       then (num + Timer_Update_result env,
                             do_call (SequenceTimer_Update (m_timer c3)) c3)
                       else (num, c3));
          (num, c5) = (if m_session_mgr c4 \<noteq> NULL
                       then (num + CheckTimeout_result env,
                             do_call (SessionMgr_CheckTimeout (m_session_mgr c4)) c4)
                       else (num, c4));
          (num, c6) = (if m_stat_manager c5 \<noteq> NULL
                       then (num + StatManager_Update_result env,
                             do_call (Stat_AddResourceItem ''_loop'')
                               (do_call (StatManager_Update (m_stat_manager c5)) c5))
                       else (num, c5))
      in (num, c6))"

text \<open>
  The specification's count for one pass: the events that every sub-step reports,
  those of the processors included.
\<close>

definition events_of_pass :: "collaborators \<Rightarrow> PebbleClient \<Rightarrow> int32_t" where
  "events_of_pass env c =
     Message_Update_result env
     + sum_list (map (\<lambda>i. Naming_Update_result env (m_naming_array c i))
                  (filter (\<lambda>i. m_naming_array c i \<noteq> NULL) [0 ..< kNAMING_BUTT env]))
     + sum_list (map (\<lambda>i. IProcessor_Update_result env (m_processor_array c i))
                  (filter (\<lambda>i. m_processor_array c i \<noteq> NULL) [0 ..< kPROTOCOL_TYPE_BUTT env]))
     + (if m_timer c \<noteq> NULL then Timer_Update_result env else 0)
     + (if m_session_mgr c \<noteq> NULL then CheckTimeout_result env else 0)
     + (if m_stat_manager c \<noteq> NULL then StatManager_Update_result env else 0)"

text \<open>The non-null entries of a member array, in index order.\<close>

definition active :: "(nat \<Rightarrow> ptr) \<Rightarrow> nat list \<Rightarrow> ptr list" where
  "active arr is = map arr (filter (\<lambda>i. arr i \<noteq> NULL) is)"

section \<open>The coordination-service client (zookeeper_client.h)\<close>

text \<open>
  \<^verbatim>\<open>ACL_vector\<close> of the ZooKeeper C binding: a list of entries, each with its permission
  bits and the scheme and id of its identity.
\<close>

type_synonym ACL_vector = "(int32_t \<times> string \<times> string) list"

text \<open>\<^verbatim>\<open>struct EphemeralNodeInfo\<close> with its members \<^verbatim>\<open>_path\<close>, \<^verbatim>\<open>_value\<close>, \<^verbatim>\<open>_acl_vec\<close>.\<close>

record EphemeralNodeInfo =
  node_path :: string
  node_value :: string
  node_acl_vec :: ACL_vector

text \<open>
  \<^verbatim>\<open>std::string::compare\<close>: negative, zero or positive as the receiver is
  lexicographically (by unsigned bytes) before, equal to or after the argument.
\<close>

definition compare :: "string \<Rightarrow> string \<Rightarrow> int" where
  "compare a b = (if a < b then - 1 else if a = b then 0 else 1)"

text \<open>\<^verbatim>\<open>bool EphemeralNodeInfo::operator < (const EphemeralNodeInfo& rhs) const\<close>\<close>

definition EphemeralNodeInfo_less :: "EphemeralNodeInfo \<Rightarrow> EphemeralNodeInfo \<Rightarrow> bool" where
  "EphemeralNodeInfo_less lhs rhs = (compare (node_path lhs) (node_path rhs) < 0)"

text \<open>
  A \<^verbatim>\<open>std::set\<close> with ordering \<open>lt\<close> is the list of its elements in ascending order.
  Two elements are equivalent when neither is less than the other. \<^verbatim>\<open>insert\<close> adds an
  element unless an equivalent one is present, which it then leaves as it is;
  \<^verbatim>\<open>erase\<close> removes the element equivalent to its argument.
\<close>

definition equivalent :: "('a \<Rightarrow> 'a \<Rightarrow> bool) \<Rightarrow> 'a \<Rightarrow> 'a \<Rightarrow> bool" where
  "equivalent lt a b = (\<not> lt a b \<and> \<not> lt b a)"

fun set_insert :: "('a \<Rightarrow> 'a \<Rightarrow> bool) \<Rightarrow> 'a \<Rightarrow> 'a list \<Rightarrow> 'a list" where
  "set_insert lt x [] = [x]"
| "set_insert lt x (y # ys) =
     (if lt x y then x # y # ys
      else if lt y x then y # set_insert lt x ys
      else y # ys)"

fun set_erase :: "('a \<Rightarrow> 'a \<Rightarrow> bool) \<Rightarrow> 'a \<Rightarrow> 'a list \<Rightarrow> 'a list" where
  "set_erase lt x [] = []"
| "set_erase lt x (y # ys) =
     (if equivalent lt x y then ys else y # set_erase lt x ys)"

text \<open>
  Modelled from the spec: the session state machine of section 4.4. The header
  declares no member for it and zookeeper_client.cpp is not among the sources. The
  states are those of the specification; \<open>Connecting\<close> carries whether the session being
  established follows an expired one.
\<close>

datatype session_state = Disconnected | Connecting bool | Connected | SessionExpired | Closed

text \<open>
  The bookkeeping members of \<^verbatim>\<open>class ZookeeperClient\<close>, each a \<^verbatim>\<open>std::set\<close>, and the
  session state.
\<close>

record ZookeeperClient =
  m_auths_set :: "string list"
  m_get_watch :: "string list"
  m_get_child_watch :: "string list"
  m_exist_watch :: "string list"
  m_ephemeral_node :: "EphemeralNodeInfo list"
  session :: session_state

definition ZookeeperClient_new :: ZookeeperClient where
  "ZookeeperClient_new =
     \<lparr> m_auths_set = [], m_get_watch = [], m_get_child_watch = [], m_exist_watch = [],
       m_ephemeral_node = [], session = Disconnected \<rparr>"

text \<open>
  What happens to the client: calls of the application (connect, close, add a
  credential, create an ephemeral node, delete a node, read with the watch flag set)
  and notifications of the service (session established, session expired, a watch on a
  path fired).
\<close>

datatype zk_event =
    AConnect
  | Session_established
  | Session_expired
  | Close
  | AddDigestAuth string
  | Create_ephemeral EphemeralNodeInfo
  | Delete string
  | Get_watch string
  | GetChildren_watch string
  | Exists_watch string
  | Watch_fired string

text \<open>What recovery sends to the service on the new session.\<close>

datatype zk_request =
    Submit_auth string
  | Recreate_ephemeral EphemeralNodeInfo
  | Rearm_get string
  | Rearm_get_children string
  | Rearm_exists string

text \<open>
  Modelled from the spec: recording an ephemeral registration, which zookeeper_client.cpp
  (not among the sources) performs. "Uniqueness by path (a set ordered by path;
  re-registering the same path replaces the prior value)".
\<close>

definition record_ephemeral :: "EphemeralNodeInfo \<Rightarrow> ZookeeperClient \<Rightarrow> ZookeeperClient" where
  "record_ephemeral n z =
     z\<lparr>m_ephemeral_node :=
         set_insert EphemeralNodeInfo_less n
           (set_erase EphemeralNodeInfo_less n (m_ephemeral_node z))\<rparr>"

text \<open>
  Modelled from the spec: removing the registration of a deleted node, which
  zookeeper_client.cpp (not among the sources) performs. "Ephemeral nodes removed
  explicitly by the application before expiry must be removed from the bookkeeping set
  at deletion time".
\<close>

definition forget_ephemeral :: "string \<Rightarrow> ZookeeperClient \<Rightarrow> ZookeeperClient" where
  "forget_ephemeral p z =
     z\<lparr>m_ephemeral_node :=
         set_erase EphemeralNodeInfo_less \<lparr>node_path = p, node_value = [], node_acl_vec = []\<rparr>
           (m_ephemeral_node z)\<rparr>"

text \<open>
  Modelled from the spec: the replay of recovery, which zookeeper_client.cpp (not among
  the sources) performs. "(1) every recorded AuthEntry is re-submitted; (2) every
  EphemeralRegistration is re-created at its path with its stored value and ACL; (3)
  every watch in the three watch sets is re-armed".
\<close>

definition replay :: "ZookeeperClient \<Rightarrow> zk_request list" where
  "replay z =
     map Submit_auth (m_auths_set z)
     @ map Recreate_ephemeral (m_ephemeral_node z)
     @ map Rearm_get (m_get_watch z)
     @ map Rearm_get_children (m_get_child_watch z)
     @ map Rearm_exists (m_exist_watch z)"

text \<open>
  Modelled from the spec: one step of the client of section 4.4, which
  zookeeper_client.cpp (not among the sources) implements; it returns the requests sent.
  No replay on a fresh connect; replay when a session is established after an expired
  one; a fired watch changes no bookkeeping ("firing history is not tracked"); \<open>Closed\<close>
  is terminal.
\<close>

fun zk_step :: "zk_event \<Rightarrow> ZookeeperClient \<Rightarrow> zk_request list \<times> ZookeeperClient" where
  "zk_step AConnect z =
     (case session z of
        Disconnected \<Rightarrow> ([], z\<lparr>session := Connecting False\<rparr>)
      | SessionExpired \<Rightarrow> ([], z\<lparr>session := Connecting True\<rparr>)
      | _ \<Rightarrow> ([], z))"
| "zk_step Session_established z =
     (case session z of
        Connecting recovery \<Rightarrow> (if recovery then replay z else [], z\<lparr>session := Connected\<rparr>)
      | _ \<Rightarrow> ([], z))"
| "zk_step Session_expired z =
     (case session z of
        Connected \<Rightarrow> ([], z\<lparr>session := SessionExpired\<rparr>)
      | _ \<Rightarrow> ([], z))"
| "zk_step Close z = ([], z\<lparr>session := Closed\<rparr>)"
| "zk_step (AddDigestAuth a) z = ([], z\<lparr>m_auths_set := set_insert (<) a (m_auths_set z)\<rparr>)"
| "zk_step (Create_ephemeral n) z = ([], record_ephemeral n z)"
| "zk_step (Delete p) z = ([], forget_ephemeral p z)"
| "zk_step (Get_watch p) z = ([], z\<lparr>m_get_watch := set_insert (<) p (m_get_watch z)\<rparr>)"
| "zk_step (GetChildren_watch p) z =
     ([], z\<lparr>m_get_child_watch := set_insert (<) p (m_get_child_watch z)\<rparr>)"
| "zk_step (Exists_watch p) z = ([], z\<lparr>m_exist_watch := set_insert (<) p (m_exist_watch z)\<rparr>)"
| "zk_step (Watch_fired p) z = ([], z)"

text \<open>A history of events: the requests sent, in order, and the final state.\<close>

fun zk_run :: "zk_event list \<Rightarrow> ZookeeperClient \<Rightarrow> zk_request list \<times> ZookeeperClient" where
  "zk_run [] z = ([], z)"
| "zk_run (e # es) z =
     (let (r, z1) = zk_step e z; (rs, z2) = zk_run es z1 in (r @ rs, z2))"

text \<open>The elements of a \<^verbatim>\<open>std::set<EphemeralNodeInfo>\<close> stand in ascending order.\<close>

definition ordered_by_path :: "EphemeralNodeInfo list \<Rightarrow> bool" where
  "ordered_by_path ns = sorted_wrt EphemeralNodeInfo_less ns"

section \<open>Properties of the registry and of reconciliation\<close>

lemma Attach_NULL: "Attach h NULL c = (- 1, plog (PLOG_ERROR ''param processor is NULL'') c)"
  by (simp add: Attach_def)

lemma Attach_ok:
  "p \<noteq> NULL \<Longrightarrow> Attach h p c = (0, c\<lparr>m_processor_map := (m_processor_map c)(h \<mapsto> p)\<rparr>)"
  by (simp add: Attach_def)

lemma plog_fields [simp]:
  "m_processor_map (plog e c) = m_processor_map c"
  "m_router_handle_map (plog e c) = m_router_handle_map c"
  "m_router_map (plog e c) = m_router_map c"
  "calls (plog e c) = calls c"
  "log (plog e c) = log c @ [e]"
  by (simp_all add: plog_def)

lemma do_call_fields [simp]:
  "m_processor_map (do_call x c) = m_processor_map c"
  "m_router_handle_map (do_call x c) = m_router_handle_map c"
  "m_router_map (do_call x c) = m_router_map c"
  "log (do_call x c) = log c"
  "calls (do_call x c) = calls c @ [x]"
  by (simp_all add: do_call_def)

lemma Detach_map [simp]: "m_processor_map (snd (Detach h c)) = (m_processor_map c)(h := None)"
  by (simp add: Detach_def Let_def)

lemma Detach_frame [simp]:
  "m_router_handle_map (snd (Detach h c)) = m_router_handle_map c"
  "m_router_map (snd (Detach h c)) = m_router_map c"
  "m_last_msg_info (snd (Detach h c)) = m_last_msg_info c"
  "calls (snd (Detach h c)) = calls c"
  "log (snd (Detach h c)) = log c"
  by (simp_all add: Detach_def Let_def)

lemma Attach_map:
  "m_processor_map (snd (Attach h p c)) =
     (if p = NULL then m_processor_map c else (m_processor_map c)(h \<mapsto> p))"
  by (simp add: Attach_def)

lemma Attach_frame [simp]:
  "m_router_handle_map (snd (Attach h p c)) = m_router_handle_map c"
  "m_router_map (snd (Attach h p c)) = m_router_map c"
  "m_last_msg_info (snd (Attach h p c)) = m_last_msg_info c"
  "calls (snd (Attach h p c)) = calls c"
  by (simp_all add: Attach_def plog_def)

lemma apply_op_frame [simp]:
  "m_last_msg_info (apply_op x c) = m_last_msg_info c"
  "calls (apply_op x c) = calls c"
  by (cases x; simp)+

lemma run_ops_frame [simp]:
  "m_last_msg_info (run_ops ops c) = m_last_msg_info c"
  "calls (run_ops ops c) = calls c"
  by (induction ops arbitrary: c; simp)+

lemma run_ops_snoc: "run_ops (ops @ [x]) c = apply_op x (run_ops ops c)"
  by (induction ops arbitrary: c) simp_all

lemma apply_op_map:
  "carries_processor x \<Longrightarrow>
   m_processor_map (apply_op x c) h = most_recent h [x] (m_processor_map c h)"
  by (cases x) (simp_all add: Attach_map)

lemma registry_tracks_latest:
  "list_all carries_processor ops \<Longrightarrow>
   m_processor_map (run_ops ops c) h = latest_attach h ops (m_processor_map c h)"
proof (induction ops rule: rev_induct)
  case Nil
  show ?case by (simp add: latest_attach_def)
next
  case (snoc x xs)
  then have ih: "m_processor_map (run_ops xs c) h = latest_attach h xs (m_processor_map c h)"
    and x: "carries_processor x" by simp_all
  show ?case
  proof (cases x)
    case (Attach_op h' p)
    with x ih show ?thesis
      by (simp add: run_ops_snoc latest_attach_def Attach_map)
  next
    case (Detach_op h')
    with ih show ?thesis
      by (simp add: run_ops_snoc latest_attach_def)
  qed
qed

lemma dispatched_eq:
  "dispatched msg len info c =
     (case m_processor_map c (self_handle info) of
        None \<Rightarrow> []
      | Some p \<Rightarrow> [IProcessor_OnMessage p (remote_handle (m_last_msg_info c)) msg len info 0])"
  by (simp add: dispatched_def OnMessage_def split: option.split)

lemma reported_eq:
  "reported msg len info c =
     (case m_processor_map c (self_handle info) of
        None \<Rightarrow> [PLOG_ERROR ''handle(%ld) not attach a processor remote(%ld)'']
      | Some p \<Rightarrow> [])"
  by (simp add: reported_def OnMessage_def split: option.split)

text \<open>
  C3. After any sequence of \<open>Attach\<close> and \<open>Detach\<close> calls (on any handles, each \<open>Attach\<close>
  carrying a processor), a message for handle \<open>h\<close> is dispatched to the processor of the
  most recent \<open>Attach\<close> of \<open>h\<close> that no \<open>Detach\<close> of \<open>h\<close> followed, and to no processor
  when there is none; so never to the processor of an older \<open>Attach\<close>. Attaching a
  processor to a handle returns \<open>0\<close> and maps the handle to it, whatever the handle was
  mapped to before.
\<close>

theorem registry_last_write_wins:
  assumes "list_all carries_processor ops" and "p \<noteq> NULL"
  shows "dispatched msg len info (run_ops ops c) =
           (case latest_attach (self_handle info) ops (m_processor_map c (self_handle info)) of
              None \<Rightarrow> []
            | Some q \<Rightarrow> [IProcessor_OnMessage q (remote_handle (m_last_msg_info c)) msg len info 0])
         \<and> fst (Attach h p c') = 0
         \<and> m_processor_map (snd (Attach h p c')) h = Some p"
  using assms by (simp add: dispatched_eq registry_tracks_latest Attach_def split: option.split)

theorem registry_last_write_wins_witness:
  "dispatched [1, 2] 2 \<lparr>self_handle = 7, remote_handle = 9\<rparr>
     (run_ops [Attach_op 7 (Addr 1), Attach_op 7 (Addr 2), Detach_op 7, Attach_op 7 (Addr 3),
               Attach_op 8 (Addr 4)]
        (PebbleClient_new \<lparr>self_handle = 0, remote_handle = 5\<rparr>))
   = [IProcessor_OnMessage (Addr 3) 5 [1, 2] 2 \<lparr>self_handle = 7, remote_handle = 9\<rparr> 0]
   \<and> fst (Attach 7 (Addr 2) (snd (Attach 7 (Addr 1) (PebbleClient_new \<lparr>self_handle = 0, remote_handle = 5\<rparr>)))) = 0"
  using registry_last_write_wins [of "[Attach_op 7 (Addr 1), Attach_op 7 (Addr 2), Detach_op 7, Attach_op 7 (Addr 3),
               Attach_op 8 (Addr 4)]" "Addr 2" "[1,2]" 2 "\<lparr>self_handle = 7, remote_handle = 9\<rparr>"
        "PebbleClient_new \<lparr>self_handle = 0, remote_handle = 5\<rparr>" 7
        "snd (Attach 7 (Addr 1) (PebbleClient_new \<lparr>self_handle = 0, remote_handle = 5\<rparr>))"]
  by (simp add: latest_attach_def PebbleClient_new_def)

text \<open>
  C8, as stated, fails in its last part: a message for a handle without a processor is
  not counted as an error. \<open>OnMessage\<close> returns for it the status \<open>1\<close> that it returns
  for a delivered message, not a negative one, and changes nothing of the client but
  the log.
\<close>

theorem dropped_message_is_not_counted:
  "fst (OnMessage [1] 1 \<lparr>self_handle = 8, remote_handle = 9\<rparr>
          (snd (Attach 7 (Addr 1) (PebbleClient_new \<lparr>self_handle = 0, remote_handle = 5\<rparr>))))
     = 1
   \<and> fst (OnMessage [1] 1 \<lparr>self_handle = 7, remote_handle = 9\<rparr>
          (snd (Attach 7 (Addr 1) (PebbleClient_new \<lparr>self_handle = 0, remote_handle = 5\<rparr>))))
     = 1
   \<and> \<not> sint (fst (OnMessage [1] 1 \<lparr>self_handle = 8, remote_handle = 9\<rparr>
          (snd (Attach 7 (Addr 1) (PebbleClient_new \<lparr>self_handle = 0, remote_handle = 5\<rparr>)))))
        < 0
   \<and> snd (OnMessage [1] 1 \<lparr>self_handle = 8, remote_handle = 9\<rparr>
          (snd (Attach 7 (Addr 1) (PebbleClient_new \<lparr>self_handle = 0, remote_handle = 5\<rparr>))))
     = (snd (Attach 7 (Addr 1) (PebbleClient_new \<lparr>self_handle = 0, remote_handle = 5\<rparr>)))
         \<lparr>log := [PLOG_ERROR ''handle(%ld) not attach a processor remote(%ld)'']\<rparr>"
  by (simp add: OnMessage_def Attach_def PebbleClient_new_def plog_def)

text \<open>
  C8, amended. Every inbound message returns \<open>1\<close> and leaves the registry as it is.
  When the message's handle has a processor attached, exactly one \<open>OnMessage\<close> call goes
  to that processor and nothing is logged; when it has none, no processor is called,
  the message is dropped and logged as an error: exactly one error record is written
  and nothing else of the client changes.
\<close>

theorem dispatch_drop_on_unknown_handle:
  "fst (OnMessage msg len info c) = 1
   \<and> (m_processor_map c (self_handle info) = Some p \<longrightarrow>
        dispatched msg len info c
          = [IProcessor_OnMessage p (remote_handle (m_last_msg_info c)) msg len info 0]
        \<and> reported msg len info c = [])
   \<and> (m_processor_map c (self_handle info) = None \<longrightarrow>
        dispatched msg len info c = []
        \<and> reported msg len info c
            = [PLOG_ERROR ''handle(%ld) not attach a processor remote(%ld)'']
        \<and> snd (OnMessage msg len info c)
            = plog (PLOG_ERROR ''handle(%ld) not attach a processor remote(%ld)'') c)
   \<and> m_processor_map (snd (OnMessage msg len info c)) = m_processor_map c"
  by (simp add: dispatched_eq reported_eq) (simp add: OnMessage_def split: option.split)

theorem dispatch_drop_on_unknown_handle_witness:
  "m_processor_map
     (snd (Attach 7 (Addr 1) (PebbleClient_new \<lparr>self_handle = 0, remote_handle = 5\<rparr>))) 7
     = Some (Addr 1)
   \<and> dispatched [1] 1 \<lparr>self_handle = 7, remote_handle = 9\<rparr>
        (snd (Attach 7 (Addr 1) (PebbleClient_new \<lparr>self_handle = 0, remote_handle = 5\<rparr>)))
       = [IProcessor_OnMessage (Addr 1) 5 [1] 1 \<lparr>self_handle = 7, remote_handle = 9\<rparr> 0]
   \<and> m_processor_map
        (snd (Attach 7 (Addr 1) (PebbleClient_new \<lparr>self_handle = 0, remote_handle = 5\<rparr>))) 8
       = None
   \<and> dispatched [1] 1 \<lparr>self_handle = 8, remote_handle = 9\<rparr>
        (snd (Attach 7 (Addr 1) (PebbleClient_new \<lparr>self_handle = 0, remote_handle = 5\<rparr>)))
       = []
   \<and> reported [1] 1 \<lparr>self_handle = 8, remote_handle = 9\<rparr>
        (snd (Attach 7 (Addr 1) (PebbleClient_new \<lparr>self_handle = 0, remote_handle = 5\<rparr>)))
       = [PLOG_ERROR ''handle(%ld) not attach a processor remote(%ld)'']"
  using dispatch_drop_on_unknown_handle
          [of "[1]" 1 "\<lparr>self_handle = 7, remote_handle = 9\<rparr>"
              "snd (Attach 7 (Addr 1) (PebbleClient_new \<lparr>self_handle = 0, remote_handle = 5\<rparr>))"
              "Addr 1"]
        dispatch_drop_on_unknown_handle
          [of "[1]" 1 "\<lparr>self_handle = 8, remote_handle = 9\<rparr>"
              "snd (Attach 7 (Addr 1) (PebbleClient_new \<lparr>self_handle = 0, remote_handle = 5\<rparr>))"
              "Addr 1"]
  by (simp add: Attach_def PebbleClient_new_def)

lemma attach_each_map:
  "p \<noteq> NULL \<Longrightarrow>
   m_processor_map (attach_each hs p c) h = (if h \<in> set hs then Some p else m_processor_map c h)"
  by (induction hs arbitrary: c) (simp_all add: Attach_map)

lemma attach_each_frame [simp]:
  "m_router_handle_map (attach_each hs p c) = m_router_handle_map c"
  by (induction hs arbitrary: c) simp_all

lemma detach_each_map:
  "m_processor_map (detach_each hs c) h = (if h \<in> set hs then None else m_processor_map c h)"
  by (induction hs arbitrary: c) simp_all

lemma detach_each_frame [simp]:
  "m_router_handle_map (detach_each hs c) = m_router_handle_map c"
  by (induction hs arbitrary: c) simp_all

lemma reconcile_map:
  "p \<noteq> NULL \<Longrightarrow>
   m_processor_map (OnRouterAddressChanged r S p c) h =
     (if h \<in> set S then Some p
      else if h \<in> set (delivered c r) then None
      else m_processor_map c h)"
  by (simp add: OnRouterAddressChanged_def delivered_def Let_def attach_each_map detach_each_map
           split: option.split)

lemma reconcile_record:
  "m_router_handle_map (OnRouterAddressChanged r S p c) = (m_router_handle_map c)(r \<mapsto> S)"
  by (simp add: OnRouterAddressChanged_def Let_def split: option.split)

lemma reconcile_delivered: "delivered (OnRouterAddressChanged r S p c) r = S"
  by (simp add: delivered_def reconcile_record)

lemma deliver_all_snoc:
  "deliver_all r p (Ss @ [S]) c = OnRouterAddressChanged r S p (deliver_all r p Ss c)"
  by (induction Ss arbitrary: c) simp_all

lemma deliver_all_state:
  "p \<noteq> NULL \<Longrightarrow>
   delivered (deliver_all r p (Ss @ [S]) c) r = S \<and>
   (\<forall>h. m_processor_map (deliver_all r p (Ss @ [S]) c) h =
     (if h \<in> set S then Some p
      else if h \<in> \<Union> (set ` set Ss) \<union> set (delivered c r) then None
      else m_processor_map c h))"
proof (induction Ss arbitrary: S rule: rev_induct)
  case Nil
  then show ?case by (simp add: reconcile_map reconcile_delivered)
next
  case (snoc S' Ss)
  from snoc.IH [OF snoc.prems, of S']
  have d: "delivered (deliver_all r p (Ss @ [S']) c) r = S'"
    and m: "\<And>h. m_processor_map (deliver_all r p (Ss @ [S']) c) h =
       (if h \<in> set S' then Some p
        else if h \<in> \<Union> (set ` set Ss) \<union> set (delivered c r) then None
        else m_processor_map c h)"
    by simp_all
  have step: "deliver_all r p ((Ss @ [S']) @ [S]) c
      = OnRouterAddressChanged r S p (deliver_all r p (Ss @ [S']) c)"
    by (rule deliver_all_snoc)
  show ?case
    unfolding step using snoc.prems
    by (simp add: reconcile_delivered reconcile_map d m)
qed

lemma Attach_router_binds_processor:
  "fst (Attach_router router processor c) = 0 \<longleftrightarrow> router \<noteq> NULL \<and> processor \<noteq> NULL"
  by (simp add: Attach_router_def)

text \<open>
  C1. For a router whose processor is not null (\<open>Attach_router\<close> binds no other), after
  \<open>OnRouterAddressChanged\<close> with handle list \<open>S\<close> the registry maps every handle of \<open>S\<close>
  to the processor, no handle of the router's previous delivery outside \<open>S\<close> is mapped
  at all, every other handle is as before, and \<open>S\<close> is recorded as the router's
  delivery. On the first delivery nothing is removed. After any sequence of deliveries
  \<open>S\<^sub>1, \<dots>, S\<^sub>n, S\<close> the same holds with every earlier delivery: handles of \<open>S\<close> map
  to the processor and handles of earlier deliveries outside \<open>S\<close> are unmapped.
\<close>

theorem router_full_replace:
  assumes "processor \<noteq> NULL"
  shows "(\<forall>h. m_processor_map (OnRouterAddressChanged router S processor c) h =
            (if h \<in> set S then Some processor
             else if h \<in> set (delivered c router) then None
             else m_processor_map c h))
         \<and> delivered (OnRouterAddressChanged router S processor c) router = S
         \<and> (m_router_handle_map c router = None \<longrightarrow>
              (\<forall>h. m_processor_map (OnRouterAddressChanged router S processor c) h =
                 (if h \<in> set S then Some processor else m_processor_map c h)))
         \<and> (\<forall>h. m_processor_map (deliver_all router processor (Ss @ [S]) c) h =
              (if h \<in> set S then Some processor
               else if h \<in> \<Union> (set ` set Ss) \<union> set (delivered c router) then None
               else m_processor_map c h))"
proof -
  have first: "m_router_handle_map c router = None \<Longrightarrow> delivered c router = []"
    by (simp add: delivered_def)
  show ?thesis
    using assms deliver_all_state [OF assms, of router Ss S c]
    by (auto simp: reconcile_map reconcile_delivered first)
qed

theorem router_full_replace_witness:
  "Addr 1 \<noteq> NULL
   \<and> map (m_processor_map
        (deliver_all (Addr 10) (Addr 1) [[1, 2, 3], [2, 4]]
           (snd (Attach 9 (Addr 2) (PebbleClient_new \<lparr>self_handle = 0, remote_handle = 0\<rparr>)))))
        [1, 2, 3, 4, 9]
      = [None, Some (Addr 1), None, Some (Addr 1), Some (Addr 2)]"
  using router_full_replace [of "Addr 1" "Addr 10" "[2, 4]"
          "snd (Attach 9 (Addr 2) (PebbleClient_new \<lparr>self_handle = 0, remote_handle = 0\<rparr>))"
          "[[1, 2, 3]]"]
  by (simp add: delivered_def PebbleClient_new_def Attach_def)

text \<open>
  C9. \<open>Attach\<close> with a null processor returns the negative status \<open>-1\<close> and leaves every
  registry entry as it was (only an error is logged); with a non-null processor it
  returns \<open>0\<close> and the registry maps the handle to that processor, all other handles
  unchanged.
\<close>

theorem Attach_argument_validation:
  "fst (Attach h NULL c) = - 1 \<and> sint (fst (Attach h NULL c)) < 0
   \<and> m_processor_map (snd (Attach h NULL c)) = m_processor_map c
   \<and> (p \<noteq> NULL \<longrightarrow>
        fst (Attach h p c) = 0
        \<and> m_processor_map (snd (Attach h p c)) = (m_processor_map c)(h \<mapsto> p))"
  by (simp add: Attach_def)


theorem Attach_argument_validation_witness:
  "Addr 1 \<noteq> NULL
   \<and> fst (Attach 7 (Addr 1) (PebbleClient_new \<lparr>self_handle = 0, remote_handle = 0\<rparr>)) = 0
   \<and> m_processor_map
        (snd (Attach 7 (Addr 1) (PebbleClient_new \<lparr>self_handle = 0, remote_handle = 0\<rparr>))) 7
       = Some (Addr 1)
   \<and> fst (Attach 7 NULL (PebbleClient_new \<lparr>self_handle = 0, remote_handle = 0\<rparr>)) = - 1"
  using Attach_argument_validation
          [of 7 "PebbleClient_new \<lparr>self_handle = 0, remote_handle = 0\<rparr>" "Addr 1"]
  by simp

section \<open>Properties of the router cache and of initialisation\<close>

lemma new_object_fields [simp]:
  "fst (new_object c) = Addr (next_addr c)"
  "m_router_map (snd (new_object c)) = m_router_map c"
  "m_processor_map (snd (new_object c)) = m_processor_map c"
  "log (snd (new_object c)) = log c"
  "calls (snd (new_object c)) = calls c"
  by (simp_all add: new_object_def)

lemma next_addr_frame [simp]:
  "next_addr (do_call x c) = next_addr c"
  "next_addr (plog e c) = next_addr c"
  by (simp_all add: do_call_def plog_def)

lemma GetNaming_frame [simp]:
  "m_router_map (snd (GetNaming env t c)) = m_router_map c"
  by (simp add: GetNaming_def new_object_def Let_def case_prod_beta)

lemma GetRouter_empty_name:
  "GetRouter env [] t c = (NULL, plog (PLOG_ERROR ''name is empty'') c)"
  by (simp add: GetRouter_def)

lemma GetRouter_cached:
  "name \<noteq> [] \<Longrightarrow> m_router_map c name = Some r \<Longrightarrow> GetRouter env name t c = (r, c)"
  by (simp add: GetRouter_def)

lemma GetRouter_created:
  "name \<noteq> [] \<Longrightarrow> m_router_map c name = None \<Longrightarrow> GetRouterFactory env t \<noteq> NULL \<Longrightarrow>
   fst (GetRouter env name t c) = Addr (next_addr c) \<and>
   m_router_map (snd (GetRouter env name t c)) = (m_router_map c)(name \<mapsto> Addr (next_addr c))"
  by (simp add: GetRouter_def Let_def case_prod_beta)

lemma GetRouter_keeps:
  "m_router_map c name = Some r \<Longrightarrow> m_router_map (snd (GetRouter env name' t c)) name = Some r"
  by (auto simp: GetRouter_def Let_def case_prod_beta split: option.split)

lemma get_routers_keeps:
  "m_router_map c name = Some r \<Longrightarrow> m_router_map (get_routers env calls' c) name = Some r"
proof (induction calls' arbitrary: c)
  case Nil
  then show ?case by simp
next
  case (Cons x xs)
  obtain n t where x: "x = (n, t)" by (cases x)
  from Cons.prems have "m_router_map (snd (GetRouter env n t c)) name = Some r"
    by (rule GetRouter_keeps)
  then show ?case unfolding x by (simp add: Cons.IH)
qed

lemma GetRouter_caches:
  assumes "name \<noteq> []" and "GetRouterFactory env t \<noteq> NULL"
  shows "m_router_map (snd (GetRouter env name t c)) name = Some (fst (GetRouter env name t c))"
proof (cases "m_router_map c name")
  case None
  with assms show ?thesis by (simp add: GetRouter_created)
next
  case (Some r)
  with assms show ?thesis by (simp add: GetRouter_cached)
qed

lemma GetNaming_next_addr: "next_addr c \<le> next_addr (snd (GetNaming env d c))"
  by (simp add: GetNaming_def new_object_def Let_def case_prod_beta)

lemma GetNaming_created:
  "routers_created (snd (GetNaming env d c)) = routers_created c"
  by (simp add: GetNaming_def new_object_def Let_def case_prod_beta routers_created_def
        do_call_def plog_def)

lemma new_object_next_addr [simp]: "next_addr (snd (new_object c)) = Suc (next_addr c)"
  by (simp add: new_object_def)

lemma routers_created_frame [simp]:
  "routers_created (plog e c) = routers_created c"
  "routers_created (snd (new_object c)) = routers_created c"
  "routers_created (do_call x c) = routers_created c @ (if is_router_creation x then [x] else [])"
  by (simp_all add: routers_created_def)

lemma GetRouter_creates:
  assumes "name \<noteq> []" and "m_router_map c name = None" and "GetRouterFactory env t \<noteq> NULL"
  shows "next_addr c < next_addr (snd (GetRouter env name t c))"
    and "routers_created (snd (GetRouter env name t c))
           = routers_created c @ [RouterFactory_GetRouter t name]"
proof -
  let ?c1 = "snd (new_object (do_call (RouterFactory_GetRouter t name) c))"
  let ?c2 = "snd (GetNaming env (default_naming_type env) ?c1)"
  have n: "next_addr (snd (GetRouter env name t c)) = next_addr ?c2"
    using assms by (simp add: GetRouter_def Let_def case_prod_beta)
  have "Suc (next_addr c) \<le> next_addr ?c2"
    using GetNaming_next_addr [of ?c1 env "default_naming_type env"] by simp
  with n show "next_addr c < next_addr (snd (GetRouter env name t c))" by simp
  have "routers_created (snd (GetRouter env name t c)) = routers_created ?c2"
    using assms
    by (simp add: GetRouter_def Let_def case_prod_beta routers_created_def do_call_def plog_def)
  then show "routers_created (snd (GetRouter env name t c))
      = routers_created c @ [RouterFactory_GetRouter t name]"
    by (simp add: GetNaming_created)
qed

lemma GetRouter_no_creation:
  "name = [] \<or> m_router_map c name \<noteq> None \<or> GetRouterFactory env t = NULL \<Longrightarrow>
   m_router_map (snd (GetRouter env name t c)) = m_router_map c
   \<and> next_addr (snd (GetRouter env name t c)) = next_addr c
   \<and> routers_created (snd (GetRouter env name t c)) = routers_created c"
  by (auto simp: GetRouter_def split: option.split)

lemma cache_ok_GetRouter:
  assumes "cache_ok c"
  shows "cache_ok (snd (GetRouter env name t c))"
proof (cases "name = [] \<or> m_router_map c name \<noteq> None \<or> GetRouterFactory env t = NULL")
  case True
  from GetRouter_no_creation [OF True] assms show ?thesis by (simp add: cache_ok_def)
next
  case False
  then have h: "name \<noteq> []" "m_router_map c name = None" "GetRouterFactory env t \<noteq> NULL"
    by simp_all
  let ?c' = "snd (GetRouter env name t c)"
  have m: "m_router_map ?c' = (m_router_map c)(name \<mapsto> Addr (next_addr c))"
    using h by (simp add: GetRouter_created)
  have lt: "next_addr c < next_addr ?c'" using h by (rule GetRouter_creates(1))
  have old: "\<And>n r. m_router_map c n = Some r \<Longrightarrow> allocated_before (next_addr c) r"
    using assms by (simp add: cache_ok_def)
  have mono: "\<And>r. allocated_before (next_addr c) r \<Longrightarrow> allocated_before (next_addr ?c') r"
  proof -
    fix r assume "allocated_before (next_addr c) r"
    with lt show "allocated_before (next_addr ?c') r" by (cases r) simp_all
  qed
  have fresh: "\<And>n. m_router_map c n \<noteq> Some (Addr (next_addr c))"
  proof
    fix n assume "m_router_map c n = Some (Addr (next_addr c))"
    then have "allocated_before (next_addr c) (Addr (next_addr c))" by (rule old)
    then show False by simp
  qed
  have inj: "\<And>n1 n2 r. m_router_map c n1 = Some r \<Longrightarrow> m_router_map c n2 = Some r \<Longrightarrow> n1 = n2"
    using assms unfolding cache_ok_def by blast
  have p1: "\<forall>n r. m_router_map ?c' n = Some r \<longrightarrow> allocated_before (next_addr ?c') r"
    using lt old mono by (auto simp: m)
  have p2: "\<forall>n1 n2 r. m_router_map ?c' n1 = Some r \<longrightarrow> m_router_map ?c' n2 = Some r \<longrightarrow> n1 = n2"
    unfolding m using fresh inj by (auto split: if_splits)
  show ?thesis unfolding cache_ok_def using p1 p2 by blast
qed

lemma cache_ok_get_routers: "cache_ok c \<Longrightarrow> cache_ok (get_routers env later c)"
proof (induction later arbitrary: c)
  case Nil
  then show ?case by simp
next
  case (Cons x xs)
  obtain n t where x: "x = (n, t)" by (cases x)
  from Cons.prems have "cache_ok (snd (GetRouter env n t c))" by (rule cache_ok_GetRouter)
  then show ?case unfolding x by (simp add: Cons.IH)
qed

lemma cache_ok_new: "cache_ok (PebbleClient_new info0)"
  by (simp add: cache_ok_def PebbleClient_new_def)

lemma distinct_names_distinct_routers:
  assumes "cache_ok c" and "name \<noteq> []" and "GetRouterFactory env t \<noteq> NULL"
    and "name2 \<noteq> []" and "GetRouterFactory env2 t2 \<noteq> NULL" and "name2 \<noteq> name"
  shows "fst (GetRouter env2 name2 t2 (snd (GetRouter env name t c)))
           \<noteq> fst (GetRouter env name t c)"
proof
  let ?r1 = "fst (GetRouter env name t c)"
  let ?c1 = "snd (GetRouter env name t c)"
  let ?r2 = "fst (GetRouter env2 name2 t2 ?c1)"
  let ?c2 = "snd (GetRouter env2 name2 t2 ?c1)"
  assume eq: "?r2 = ?r1"
  have "m_router_map ?c1 name = Some ?r1" using assms(2,3) by (rule GetRouter_caches)
  then have a: "m_router_map ?c2 name = Some ?r1" by (rule GetRouter_keeps)
  have b: "m_router_map ?c2 name2 = Some ?r2" using assms(4,5) by (rule GetRouter_caches)
  have "cache_ok ?c2" using assms(1) by (intro cache_ok_GetRouter)
  then have "\<And>n1 n2 r. m_router_map ?c2 n1 = Some r \<Longrightarrow> m_router_map ?c2 n2 = Some r \<Longrightarrow> n1 = n2"
    unfolding cache_ok_def by blast
  from this [OF b] a eq have "name2 = name" by simp
  with assms(6) show False by simp
qed

text \<open>
  C6. With a non-empty name and a factory registered for the router type (\<open>Init\<close>
  registers the default one), \<open>GetRouter\<close> leaves the returned router in the cache under
  the name. For a name not yet cached it constructs exactly one router, a fresh object,
  through the factory; for a cached name it returns the cached router and constructs
  nothing. A second \<open>GetRouter\<close> for the same name returns the router that the first
  returned, constructs nothing and changes nothing, whatever router type it passes; so
  does every later call, after any other \<open>GetRouter\<close> calls. In a well-formed cache,
  which every \<open>GetRouter\<close> preserves, a different name yields a different router. With
  an empty name \<open>GetRouter\<close> returns the null pointer, logs an error and caches nothing.
\<close>

theorem GetRouter_caching_and_validation:
  assumes "name \<noteq> []" and "GetRouterFactory env router_type \<noteq> NULL"
  shows "GetRouter env' name router_type' (snd (GetRouter env name router_type c))
           = (fst (GetRouter env name router_type c), snd (GetRouter env name router_type c))
         \<and> fst (GetRouter env' name router_type'
                  (get_routers env' later (snd (GetRouter env name router_type c))))
           = fst (GetRouter env name router_type c)
         \<and> (m_router_map c name = None \<longrightarrow> fst (GetRouter env name router_type c) \<noteq> NULL)
         \<and> fst (GetRouter env [] router_type c) = NULL
         \<and> m_router_map (snd (GetRouter env [] router_type c)) = m_router_map c
         \<and> log (snd (GetRouter env [] router_type c)) = log c @ [PLOG_ERROR ''name is empty'']
         \<and> m_router_map (snd (GetRouter env name router_type c)) name
             = Some (fst (GetRouter env name router_type c))
         \<and> (m_router_map c name = None \<longrightarrow>
              fst (GetRouter env name router_type c) = Addr (next_addr c)
              \<and> next_addr c < next_addr (snd (GetRouter env name router_type c))
              \<and> m_router_map (snd (GetRouter env name router_type c))
                  = (m_router_map c)(name \<mapsto> Addr (next_addr c))
              \<and> routers_created (snd (GetRouter env name router_type c))
                  = routers_created c @ [RouterFactory_GetRouter router_type name])
         \<and> (\<forall>r. m_router_map c name = Some r \<longrightarrow>
              GetRouter env name router_type c = (r, c))
         \<and> routers_created
               (snd (GetRouter env' name router_type' (snd (GetRouter env name router_type c))))
             = routers_created (snd (GetRouter env name router_type c))
         \<and> (cache_ok c \<longrightarrow> cache_ok (snd (GetRouter env name router_type c)))
         \<and> (cache_ok c \<and> name2 \<noteq> [] \<and> name2 \<noteq> name \<and> GetRouterFactory env' router_type' \<noteq> NULL
              \<longrightarrow> fst (GetRouter env' name2 router_type' (snd (GetRouter env name router_type c)))
                    \<noteq> fst (GetRouter env name router_type c))"
proof -
  let ?r = "fst (GetRouter env name router_type c)"
  let ?c = "snd (GetRouter env name router_type c)"
  have cached: "m_router_map ?c name = Some ?r"
    using assms by (rule GetRouter_caches)
  have a: "GetRouter env' name router_type' ?c = (?r, ?c)"
    using assms(1) cached by (rule GetRouter_cached)
  have "m_router_map (get_routers env' later ?c) name = Some ?r"
    using cached by (rule get_routers_keeps)
  with assms(1) have b: "fst (GetRouter env' name router_type' (get_routers env' later ?c)) = ?r"
    by (simp add: GetRouter_cached)
  have c: "m_router_map c name = None \<longrightarrow> ?r \<noteq> NULL"
    using assms by (simp add: GetRouter_created)
  have d: "m_router_map c name = None \<longrightarrow>
              ?r = Addr (next_addr c) \<and> next_addr c < next_addr ?c
              \<and> m_router_map ?c = (m_router_map c)(name \<mapsto> Addr (next_addr c))
              \<and> routers_created ?c = routers_created c @ [RouterFactory_GetRouter router_type name]"
    using assms by (simp add: GetRouter_created GetRouter_creates)
  have e: "\<forall>r. m_router_map c name = Some r \<longrightarrow> GetRouter env name router_type c = (r, c)"
    using assms(1) by (simp add: GetRouter_cached)
  have f: "routers_created (snd (GetRouter env' name router_type' ?c)) = routers_created ?c"
    by (simp add: a)
  have g: "cache_ok c \<longrightarrow> cache_ok ?c" by (simp add: cache_ok_GetRouter)
  have h: "cache_ok c \<and> name2 \<noteq> [] \<and> name2 \<noteq> name \<and> GetRouterFactory env' router_type' \<noteq> NULL
              \<longrightarrow> fst (GetRouter env' name2 router_type' ?c) \<noteq> ?r"
    using assms by (simp add: distinct_names_distinct_routers)
  have i: "fst (GetRouter env [] router_type c) = NULL
         \<and> m_router_map (snd (GetRouter env [] router_type c)) = m_router_map c
         \<and> log (snd (GetRouter env [] router_type c)) = log c @ [PLOG_ERROR ''name is empty'']"
    by (simp add: GetRouter_empty_name)
  show ?thesis
    by (intro conjI a b c cached d e f g h i [THEN conjunct1] i [THEN conjunct2, THEN conjunct1]
          i [THEN conjunct2, THEN conjunct2])
qed

theorem GetRouter_caching_and_validation_witness:
  "''svc-a'' \<noteq> [] \<and> GetRouterFactory quiet 0 \<noteq> NULL
   \<and> cache_ok (PebbleClient_new \<lparr>self_handle = 0, remote_handle = 0\<rparr>)
   \<and> fst (GetRouter quiet ''svc-a'' 0 (PebbleClient_new \<lparr>self_handle = 0, remote_handle = 0\<rparr>))
       = Addr 1
   \<and> fst (GetRouter quiet ''svc-a'' 0
            (snd (GetRouter quiet ''svc-a'' 0
                    (PebbleClient_new \<lparr>self_handle = 0, remote_handle = 0\<rparr>))))
       = Addr 1
   \<and> fst (GetRouter quiet ''svc-b'' 0
            (snd (GetRouter quiet ''svc-a'' 0
                    (PebbleClient_new \<lparr>self_handle = 0, remote_handle = 0\<rparr>))))
       = Addr 3
   \<and> m_router_map
        (snd (GetRouter quiet ''svc-a'' 0
                (PebbleClient_new \<lparr>self_handle = 0, remote_handle = 0\<rparr>))) ''svc-a''
       = Some (Addr 1)
   \<and> routers_created
        (snd (GetRouter quiet ''svc-a'' 0
                (snd (GetRouter quiet ''svc-a'' 0
                        (PebbleClient_new \<lparr>self_handle = 0, remote_handle = 0\<rparr>)))))
       = [RouterFactory_GetRouter 0 ''svc-a'']
   \<and> fst (GetRouter quiet [] 0 (PebbleClient_new \<lparr>self_handle = 0, remote_handle = 0\<rparr>)) = NULL"
  using GetRouter_caching_and_validation
          [of "''svc-a''" quiet 0 quiet 0 "PebbleClient_new \<lparr>self_handle = 0, remote_handle = 0\<rparr>"
              "[]" "''svc-b''"]
  by (simp add: cache_ok_new)
     (simp add: GetRouter_def GetNaming_def new_object_def quiet_def PebbleClient_new_def
        plog_def do_call_def routers_created_def)

text \<open>
  C10. When \<open>Init\<close> of the newly created router returns a non-zero status, \<open>GetRouter\<close>
  returns the same non-null router that it returns when \<open>Init\<close> succeeds, caches it under
  the name and only writes an error record; every later \<open>GetRouter\<close> for the name returns
  that router from the cache, without another \<open>Init\<close>.
\<close>

theorem GetRouter_init_failure_is_only_logged:
  assumes "name \<noteq> []" and "m_router_map c name = None"
    and "GetRouterFactory env router_type \<noteq> NULL"
    and "\<And>naming. Router_Init_result env name naming \<noteq> 0"
  shows "fst (GetRouter env name router_type c) = Addr (next_addr c)
         \<and> fst (GetRouter env name router_type c)
             = fst (GetRouter (env\<lparr>Router_Init_result := (\<lambda>n naming. 0)\<rparr>) name router_type c)
         \<and> m_router_map (snd (GetRouter env name router_type c)) name = Some (Addr (next_addr c))
         \<and> last (log (snd (GetRouter env name router_type c)))
             = PLOG_ERROR ''router %s init failed(%d)''
         \<and> GetRouter env' name router_type' (snd (GetRouter env name router_type c))
             = (Addr (next_addr c), snd (GetRouter env name router_type c))
         \<and> fst (GetRouter env' name router_type'
                  (get_routers env' later (snd (GetRouter env name router_type c))))
             = Addr (next_addr c)"
proof -
  let ?c = "snd (GetRouter env name router_type c)"
  have r: "fst (GetRouter env name router_type c) = Addr (next_addr c)"
    and m: "m_router_map ?c name = Some (Addr (next_addr c))"
    using assms(1-3) by (simp_all add: GetRouter_created)
  have ok: "fst (GetRouter (env\<lparr>Router_Init_result := (\<lambda>n naming. 0)\<rparr>) name router_type c)
      = Addr (next_addr c)"
    using assms(1-3) by (simp add: GetRouter_created)
  have l: "last (log ?c) = PLOG_ERROR ''router %s init failed(%d)''"
    using assms by (simp add: GetRouter_def Let_def case_prod_beta)
  have again: "GetRouter env' name router_type' ?c = (Addr (next_addr c), ?c)"
    using assms(1) m by (rule GetRouter_cached)
  have "m_router_map (get_routers env' later ?c) name = Some (Addr (next_addr c))"
    using m by (rule get_routers_keeps)
  with assms(1) have lat: "fst (GetRouter env' name router_type' (get_routers env' later ?c))
      = Addr (next_addr c)"
    by (simp add: GetRouter_cached)
  show ?thesis using r ok m l again lat by simp
qed

theorem GetRouter_init_failure_is_only_logged_witness:
  "''svc-a'' \<noteq> []
   \<and> m_router_map (PebbleClient_new \<lparr>self_handle = 0, remote_handle = 0\<rparr>) ''svc-a'' = None
   \<and> GetRouterFactory (quiet\<lparr>Router_Init_result := (\<lambda>n naming. - 1)\<rparr>) 0 \<noteq> NULL
   \<and> fst (GetRouter (quiet\<lparr>Router_Init_result := (\<lambda>n naming. - 1)\<rparr>) ''svc-a'' 0
            (PebbleClient_new \<lparr>self_handle = 0, remote_handle = 0\<rparr>)) = Addr 1
   \<and> log (snd (GetRouter (quiet\<lparr>Router_Init_result := (\<lambda>n naming. - 1)\<rparr>) ''svc-a'' 0
            (PebbleClient_new \<lparr>self_handle = 0, remote_handle = 0\<rparr>)))
       = [PLOG_ERROR ''router %s init failed(%d)'']
   \<and> fst (GetRouter quiet ''svc-a'' 0
        (snd (GetRouter (quiet\<lparr>Router_Init_result := (\<lambda>n naming. - 1)\<rparr>) ''svc-a'' 0
            (PebbleClient_new \<lparr>self_handle = 0, remote_handle = 0\<rparr>)))) = Addr 1"
  using GetRouter_init_failure_is_only_logged
          [of "''svc-a''" "PebbleClient_new \<lparr>self_handle = 0, remote_handle = 0\<rparr>"
              "quiet\<lparr>Router_Init_result := (\<lambda>n naming. - 1)\<rparr>" 0 quiet 0 "[]"]
  by (simp add: GetRouter_def GetNaming_def new_object_def quiet_def PebbleClient_new_def
        plog_def do_call_def)

lemma InitTimer_status:
  "fst (InitTimer env c) = (if sint (StartTimer_result env) < 0 then - 1 else 0)"
  by (simp add: InitTimer_def Let_def)

lemma InitTimer_frame [simp]:
  "m_coroutine_schedule (snd (InitTimer env c)) = m_coroutine_schedule c"
  by (simp add: InitTimer_def Let_def new_object_def plog_def do_call_def)

lemma InitCoSchedule_status:
  "fst (InitCoSchedule env c) =
     (if m_coroutine_schedule c = NULL \<and> CoroutineSchedule_Init_result env \<noteq> 0 then - 1 else 0)"
  by (simp add: InitCoSchedule_def Let_def case_prod_beta)

lemma InitStat_status: "fst (InitStat env c) = StatManager_Init_result env"
  by (simp add: InitStat_def Let_def)

lemma prelude_frame [simp]:
  "m_coroutine_schedule (plog e c) = m_coroutine_schedule c"
  "m_coroutine_schedule (do_call x c) = m_coroutine_schedule c"
  by (simp_all add: plog_def do_call_def)

lemma Init_status:
  "fst (Init env c) =
     (if sint (StartTimer_result env) < 0 then - 1
      else if m_coroutine_schedule c = NULL \<and> CoroutineSchedule_Init_result env \<noteq> 0 then - 1
      else if StatManager_Init_result env \<noteq> 0 then - 1
      else if Message_Init_result env \<noteq> 0 then - 1
      else if SetRouterFactory_result env \<noteq> 0 then - 1
      else 0)"
  by (simp add: Init_def Let_def case_prod_beta InitTimer_status InitCoSchedule_status
        InitStat_status)

text \<open>
  C5, as stated, fails: a failing timer, scheduler, statistics manager and transport
  registration all make \<open>Init\<close> return the same code \<open>-1\<close>.
\<close>

theorem Init_failure_codes_not_distinct:
  "fst (Init (quiet\<lparr>StartTimer_result := - 1\<rparr>)
          (PebbleClient_new \<lparr>self_handle = 0, remote_handle = 0\<rparr>)) = - 1
   \<and> fst (Init (quiet\<lparr>CoroutineSchedule_Init_result := - 2\<rparr>)
          (PebbleClient_new \<lparr>self_handle = 0, remote_handle = 0\<rparr>)) = - 1
   \<and> fst (Init (quiet\<lparr>StatManager_Init_result := - 3\<rparr>)
          (PebbleClient_new \<lparr>self_handle = 0, remote_handle = 0\<rparr>)) = - 1
   \<and> fst (Init (quiet\<lparr>Message_Init_result := - 4\<rparr>)
          (PebbleClient_new \<lparr>self_handle = 0, remote_handle = 0\<rparr>)) = - 1"
  by (simp add: Init_status quiet_def PebbleClient_new_def)

text \<open>
  C5, amended. If the timer, the cooperative scheduler, the statistics manager, the
  transport registration or the router-factory registration fails, \<open>Init\<close> returns
  \<open>-1\<close>, one code for all of them; it returns \<open>0\<close> exactly when none fails, and nothing
  else.
\<close>

theorem Init_uniform_failure_code:
  "(sint (StartTimer_result env) < 0 \<longrightarrow> fst (Init env c) = - 1)
   \<and> (m_coroutine_schedule c = NULL \<and> CoroutineSchedule_Init_result env \<noteq> 0
        \<longrightarrow> fst (Init env c) = - 1)
   \<and> (StatManager_Init_result env \<noteq> 0 \<longrightarrow> fst (Init env c) = - 1)
   \<and> (Message_Init_result env \<noteq> 0 \<longrightarrow> fst (Init env c) = - 1)
   \<and> (SetRouterFactory_result env \<noteq> 0 \<longrightarrow> fst (Init env c) = - 1)
   \<and> (fst (Init env c) = - 1 \<or> fst (Init env c) = 0)
   \<and> (fst (Init env c) = 0 \<longleftrightarrow>
        \<not> sint (StartTimer_result env) < 0
        \<and> \<not> (m_coroutine_schedule c = NULL \<and> CoroutineSchedule_Init_result env \<noteq> 0)
        \<and> StatManager_Init_result env = 0
        \<and> Message_Init_result env = 0
        \<and> SetRouterFactory_result env = 0)"
  by (simp add: Init_status)

theorem Init_uniform_failure_code_witness:
  "sint (StartTimer_result (quiet\<lparr>StartTimer_result := - 1\<rparr>)) < 0
   \<and> fst (Init (quiet\<lparr>StartTimer_result := - 1\<rparr>)
            (PebbleClient_new \<lparr>self_handle = 0, remote_handle = 0\<rparr>)) = - 1
   \<and> Message_Init_result (quiet\<lparr>Message_Init_result := 5\<rparr>) \<noteq> 0
   \<and> fst (Init (quiet\<lparr>Message_Init_result := 5\<rparr>)
            (PebbleClient_new \<lparr>self_handle = 0, remote_handle = 0\<rparr>)) = - 1
   \<and> fst (Init quiet (PebbleClient_new \<lparr>self_handle = 0, remote_handle = 0\<rparr>)) = 0"
  using Init_uniform_failure_code
          [of "quiet\<lparr>StartTimer_result := - 1\<rparr>"
              "PebbleClient_new \<lparr>self_handle = 0, remote_handle = 0\<rparr>"]
        Init_uniform_failure_code
          [of "quiet\<lparr>Message_Init_result := 5\<rparr>"
              "PebbleClient_new \<lparr>self_handle = 0, remote_handle = 0\<rparr>"]
        Init_uniform_failure_code
          [of quiet "PebbleClient_new \<lparr>self_handle = 0, remote_handle = 0\<rparr>"]
  by (simp add: quiet_def PebbleClient_new_def)

section \<open>Properties of the update pass\<close>

lemma do_call_as_update: "do_call x c = c\<lparr>calls := calls c @ [x]\<rparr>"
  by (simp add: do_call_def)

lemma update_namings_eq:
  "update_namings env is (num, c) =
     (num + sum_list (map (Naming_Update_result env) (active (m_naming_array c) is)),
      c\<lparr>calls := calls c @ map Naming_Update (active (m_naming_array c) is)\<rparr>)"
  by (induction "is" arbitrary: num c) (simp_all add: active_def do_call_def add.assoc)

lemma update_processors_eq:
  "update_processors env is (num, c) =
     (num, c\<lparr>calls := calls c @ map IProcessor_Update (active (m_processor_array c) is)\<rparr>)"
  by (induction "is" arbitrary: num c) (simp_all add: active_def do_call_def)

lemma Update_status:
  "fst (Update env c) =
     Message_Update_result env
     + sum_list (map (Naming_Update_result env)
                  (active (m_naming_array c) [0 ..< kNAMING_BUTT env]))
     + (if m_timer c \<noteq> NULL then Timer_Update_result env else 0)
     + (if m_session_mgr c \<noteq> NULL then CheckTimeout_result env else 0)
     + (if m_stat_manager c \<noteq> NULL then StatManager_Update_result env else 0)"
  by (simp add: Update_def Let_def update_namings_eq update_processors_eq do_call_def)

lemma Update_order:
  "calls (snd (Update env c)) =
     calls c
     @ [Message_Update]
     @ map Naming_Update (active (m_naming_array c) [0 ..< kNAMING_BUTT env])
     @ map IProcessor_Update (active (m_processor_array c) [0 ..< kPROTOCOL_TYPE_BUTT env])
     @ (if m_timer c \<noteq> NULL then [SequenceTimer_Update (m_timer c)] else [])
     @ (if m_session_mgr c \<noteq> NULL then [SessionMgr_CheckTimeout (m_session_mgr c)] else [])
     @ (if m_stat_manager c \<noteq> NULL
        then [StatManager_Update (m_stat_manager c), Stat_AddResourceItem ''_loop''] else [])"
  by (simp add: Update_def Let_def update_namings_eq update_processors_eq do_call_def)

lemma Update_misses_processor_counts:
  "events_of_pass env c =
     fst (Update env c)
     + sum_list (map (IProcessor_Update_result env)
                  (active (m_processor_array c) [0 ..< kPROTOCOL_TYPE_BUTT env]))"
  by (simp add: Update_status events_of_pass_def active_def comp_def)

text \<open>
  C4. One pass calls, in this order, the transport pump, every active naming backend,
  every active processor, the timer, the pending-call timeout check and the statistics
  update (\<open>Update_order\<close>). Its result adds up what the transport, the naming backends,
  the timer, the timeout check and the statistics report (\<open>Update_status\<close>) and leaves
  out what the processors report (\<open>Update_misses_processor_counts\<close>): with one active
  processor that reports one event and nothing else to do, the pass returns \<open>0\<close> although
  one event was processed.
\<close>

theorem Update_drops_processor_events:
  "fst (Update (quiet\<lparr>IProcessor_Update_result := (\<lambda>p. 1)\<rparr>)
         ((PebbleClient_new \<lparr>self_handle = 0, remote_handle = 0\<rparr>)
            \<lparr>m_processor_array := (\<lambda>i. NULL)(0 := Addr 5)\<rparr>)) = 0
   \<and> events_of_pass (quiet\<lparr>IProcessor_Update_result := (\<lambda>p. 1)\<rparr>)
         ((PebbleClient_new \<lparr>self_handle = 0, remote_handle = 0\<rparr>)
            \<lparr>m_processor_array := (\<lambda>i. NULL)(0 := Addr 5)\<rparr>) = 1
   \<and> calls (snd (Update (quiet\<lparr>IProcessor_Update_result := (\<lambda>p. 1)\<rparr>)
         ((PebbleClient_new \<lparr>self_handle = 0, remote_handle = 0\<rparr>)
            \<lparr>m_processor_array := (\<lambda>i. NULL)(0 := Addr 5)\<rparr>)))
       = [Message_Update, IProcessor_Update (Addr 5)]"
  by (simp add: Update_status Update_order events_of_pass_def active_def quiet_def
        PebbleClient_new_def upt_rec)

section \<open>Properties of the coordination-service client\<close>

lemma less_iff_path: "EphemeralNodeInfo_less a b \<longleftrightarrow> node_path a < node_path b"
  by (simp add: EphemeralNodeInfo_less_def compare_def)

lemma equivalent_iff_path:
  "equivalent EphemeralNodeInfo_less a b \<longleftrightarrow> node_path a = node_path b"
  by (auto simp: equivalent_def less_iff_path)

lemma ordered_distinct: "ordered_by_path ns \<Longrightarrow> distinct (map node_path ns)"
  by (induction ns) (auto simp: ordered_by_path_def less_iff_path)

lemma set_erase_subset: "set (set_erase lt x ys) \<subseteq> set ys"
  by (induction ys) auto

lemma set_erase_ordered:
  "ordered_by_path ns \<Longrightarrow> ordered_by_path (set_erase EphemeralNodeInfo_less n ns)"
  unfolding ordered_by_path_def
proof (induction ns)
  case Nil
  then show ?case by simp
next
  case (Cons a ns)
  then show ?case
    using set_erase_subset [of EphemeralNodeInfo_less n ns] by auto
qed

lemma set_erase_removes:
  "ordered_by_path ns \<Longrightarrow>
   \<forall>e \<in> set (set_erase EphemeralNodeInfo_less n ns). node_path e \<noteq> node_path n"
  unfolding ordered_by_path_def
  by (induction ns) (auto simp: equivalent_iff_path less_iff_path)

lemma set_insert_set:
  "set (set_insert lt n ns) \<subseteq> insert n (set ns)"
  by (induction ns) auto

lemma set_insert_ordered:
  "ordered_by_path ns \<Longrightarrow> ordered_by_path (set_insert EphemeralNodeInfo_less n ns)"
  unfolding ordered_by_path_def
proof (induction ns)
  case Nil
  then show ?case by simp
next
  case (Cons a ns)
  then show ?case
    using set_insert_set [of "\<lambda>a b. node_path a < node_path b" n ns]
    by (auto simp: less_iff_path)
qed

lemma set_insert_fresh:
  "\<forall>e \<in> set ns. node_path e \<noteq> node_path n \<Longrightarrow>
   n \<in> set (set_insert EphemeralNodeInfo_less n ns)"
  by (induction ns) (auto simp: less_iff_path)

lemma set_insert_keeps_existing:
  "e \<in> set ns \<Longrightarrow> node_path e = node_path n \<Longrightarrow> ordered_by_path ns \<Longrightarrow>
   set_insert EphemeralNodeInfo_less n ns = ns"
  unfolding ordered_by_path_def
  by (induction ns) (auto simp: less_iff_path)

lemma only_entry:
  "distinct (map node_path ns) \<Longrightarrow> n \<in> set ns \<Longrightarrow>
   filter (\<lambda>e. node_path e = node_path n) ns = [n]"
proof (induction ns)
  case Nil
  then show ?case by simp
next
  case (Cons a ns)
  show ?case
  proof (cases "a = n")
    case True
    with Cons.prems have "node_path n \<notin> node_path ` set ns" by simp
    then have "\<forall>e \<in> set ns. node_path e \<noteq> node_path n" by (metis imageI)
    then have "filter (\<lambda>e. node_path e = node_path n) ns = []" by (simp add: filter_empty_conv)
    with True show ?thesis by simp
  next
    case False
    with Cons.prems have "n \<in> set ns" and "node_path a \<noteq> node_path n" by auto
    with Cons show ?thesis by simp
  qed
qed

lemma record_ephemeral_ordered:
  "ordered_by_path (m_ephemeral_node z) \<Longrightarrow> ordered_by_path (m_ephemeral_node (record_ephemeral n z))"
  by (simp add: record_ephemeral_def set_insert_ordered set_erase_ordered)

lemma record_ephemeral_entry:
  assumes "ordered_by_path (m_ephemeral_node z)"
  shows "filter (\<lambda>e. node_path e = node_path n) (m_ephemeral_node (record_ephemeral n z)) = [n]"
proof -
  have "n \<in> set (m_ephemeral_node (record_ephemeral n z))"
    using set_erase_removes [OF assms, of n] by (simp add: record_ephemeral_def set_insert_fresh)
  moreover have "distinct (map node_path (m_ephemeral_node (record_ephemeral n z)))"
    using assms by (intro ordered_distinct record_ephemeral_ordered)
  ultimately show ?thesis by (rule only_entry [rotated])
qed

lemma zk_step_ordered:
  "ordered_by_path (m_ephemeral_node z) \<Longrightarrow> ordered_by_path (m_ephemeral_node (snd (zk_step e z)))"
  by (cases e)
     (simp_all add: record_ephemeral_ordered forget_ephemeral_def set_erase_ordered
        split: session_state.split)

lemma zk_run_snd_Cons: "snd (zk_run (e # es) z) = snd (zk_run es (snd (zk_step e z)))"
  by (simp add: case_prod_beta)

lemma zk_run_ordered:
  "ordered_by_path (m_ephemeral_node z) \<Longrightarrow> ordered_by_path (m_ephemeral_node (snd (zk_run es z)))"
proof (induction es arbitrary: z)
  case Nil
  then show ?case by simp
next
  case (Cons e es)
  from Cons.prems have "ordered_by_path (m_ephemeral_node (snd (zk_step e z)))"
    by (rule zk_step_ordered)
  then show ?case unfolding zk_run_snd_Cons by (rule Cons.IH)
qed

lemma reachable_ordered:
  "ordered_by_path (m_ephemeral_node (snd (zk_run es ZookeeperClient_new)))"
  by (rule zk_run_ordered) (simp add: ZookeeperClient_new_def ordered_by_path_def)

text \<open>
  C7. After any history of the client the ephemeral-registration set holds at most one
  entry per path, in ascending order of path; two entries are equivalent for the set
  exactly when their paths are equal, whatever their values and ACLs; and registering
  an ephemeral node leaves exactly that registration, with its value and ACL, as the
  entry of its path.
\<close>

theorem ephemeral_unique_by_path_and_replaced:
  "distinct (map node_path (m_ephemeral_node (snd (zk_run history ZookeeperClient_new))))
   \<and> sorted_wrt (\<lambda>a b. node_path a < node_path b)
        (m_ephemeral_node (snd (zk_run history ZookeeperClient_new)))
   \<and> (equivalent EphemeralNodeInfo_less a b \<longleftrightarrow> node_path a = node_path b)
   \<and> filter (\<lambda>e. node_path e = node_path n)
        (m_ephemeral_node
           (snd (zk_step (Create_ephemeral n) (snd (zk_run history ZookeeperClient_new)))))
       = [n]"
proof -
  let ?z = "snd (zk_run history ZookeeperClient_new)"
  have o: "ordered_by_path (m_ephemeral_node ?z)" by (rule reachable_ordered)
  then have d: "distinct (map node_path (m_ephemeral_node ?z))" by (rule ordered_distinct)
  have s: "sorted_wrt (\<lambda>a b. node_path a < node_path b) (m_ephemeral_node ?z)"
    using o by (simp add: ordered_by_path_def less_iff_path [abs_def])
  have r: "filter (\<lambda>e. node_path e = node_path n)
        (m_ephemeral_node (snd (zk_step (Create_ephemeral n) ?z))) = [n]"
    using o by (simp add: record_ephemeral_entry)
  show ?thesis using d s r by (simp add: equivalent_iff_path)
qed


theorem ephemeral_unique_by_path_and_replaced_witness:
  "m_ephemeral_node
     (snd (zk_run [Create_ephemeral \<lparr>node_path = ''/a/b'', node_value = ''v1'', node_acl_vec = []\<rparr>]
             ZookeeperClient_new))
     = [\<lparr>node_path = ''/a/b'', node_value = ''v1'', node_acl_vec = []\<rparr>]
   \<and> m_ephemeral_node
       (snd (zk_step
               (Create_ephemeral \<lparr>node_path = ''/a/b'', node_value = ''v2'', node_acl_vec = []\<rparr>)
               (snd (zk_run
                       [Create_ephemeral
                          \<lparr>node_path = ''/a/b'', node_value = ''v1'', node_acl_vec = []\<rparr>]
                       ZookeeperClient_new))))
     = [\<lparr>node_path = ''/a/b'', node_value = ''v2'', node_acl_vec = []\<rparr>]"
  using ephemeral_unique_by_path_and_replaced
          [of "[Create_ephemeral \<lparr>node_path = ''/a/b'', node_value = ''v1'', node_acl_vec = []\<rparr>]"
              "\<lparr>node_path = ''/a/b'', node_value = ''v1'', node_acl_vec = []\<rparr>"
              "\<lparr>node_path = ''/a/b'', node_value = ''v2'', node_acl_vec = []\<rparr>"
              "\<lparr>node_path = ''/a/b'', node_value = ''v2'', node_acl_vec = []\<rparr>"]
  by (simp add: ZookeeperClient_new_def record_ephemeral_def equivalent_def
        EphemeralNodeInfo_less_def compare_def)

text \<open>
  The comparison alone does not replace anything: \<^verbatim>\<open>std::set::insert\<close> of an entry
  whose path is present keeps the stored entry.
\<close>

lemma std_insert_keeps_old_value:
  "set_insert EphemeralNodeInfo_less
     \<lparr>node_path = ''/a/b'', node_value = ''v2'', node_acl_vec = []\<rparr>
     [\<lparr>node_path = ''/a/b'', node_value = ''v1'', node_acl_vec = []\<rparr>]
   = [\<lparr>node_path = ''/a/b'', node_value = ''v1'', node_acl_vec = []\<rparr>]"
  by (simp add: EphemeralNodeInfo_less_def compare_def)

lemma set_insert_mem: "(x::'a::linorder) \<in> set (set_insert (<) x xs)"
  by (induction xs) auto

lemma set_insert_mono: "y \<in> set xs \<Longrightarrow> y \<in> set (set_insert lt x xs)"
  by (induction xs) auto

lemma zk_step_watches_grow:
  "set (m_auths_set z) \<subseteq> set (m_auths_set (snd (zk_step e z)))"
  "set (m_get_watch z) \<subseteq> set (m_get_watch (snd (zk_step e z)))"
  "set (m_get_child_watch z) \<subseteq> set (m_get_child_watch (snd (zk_step e z)))"
  "set (m_exist_watch z) \<subseteq> set (m_exist_watch (snd (zk_step e z)))"
  by (cases e;
      auto simp: record_ephemeral_def forget_ephemeral_def set_insert_mono
           split: session_state.split)+

lemma zk_run_watches_grow:
  "set (m_auths_set z) \<subseteq> set (m_auths_set (snd (zk_run es z)))
   \<and> set (m_get_watch z) \<subseteq> set (m_get_watch (snd (zk_run es z)))
   \<and> set (m_get_child_watch z) \<subseteq> set (m_get_child_watch (snd (zk_run es z)))
   \<and> set (m_exist_watch z) \<subseteq> set (m_exist_watch (snd (zk_run es z)))"
proof (induction es arbitrary: z)
  case Nil
  show ?case by simp
next
  case (Cons e es)
  show ?case
    unfolding zk_run_snd_Cons
    using Cons.IH [of "snd (zk_step e z)"] zk_step_watches_grow [of z e]
    by blast
qed

lemma recorded_auth:
  "AddDigestAuth a \<in> set es \<Longrightarrow> a \<in> set (m_auths_set (snd (zk_run es z)))"
proof (induction es arbitrary: z)
  case Nil
  then show ?case by simp
next
  case (Cons e es)
  show ?case
  proof (cases "e = AddDigestAuth a")
    case True
    then have "a \<in> set (m_auths_set (snd (zk_step e z)))" by (simp add: set_insert_mem)
    then show ?thesis
      unfolding zk_run_snd_Cons using zk_run_watches_grow [of "snd (zk_step e z)" es] by auto
  next
    case False
    with Cons.prems have "AddDigestAuth a \<in> set es" by simp
    then show ?thesis unfolding zk_run_snd_Cons by (rule Cons.IH)
  qed
qed

lemma recorded_get_watch:
  "Get_watch p \<in> set es \<Longrightarrow> p \<in> set (m_get_watch (snd (zk_run es z)))"
proof (induction es arbitrary: z)
  case Nil
  then show ?case by simp
next
  case (Cons e es)
  show ?case
  proof (cases "e = Get_watch p")
    case True
    then have "p \<in> set (m_get_watch (snd (zk_step e z)))" by (simp add: set_insert_mem)
    then show ?thesis
      unfolding zk_run_snd_Cons using zk_run_watches_grow [of "snd (zk_step e z)" es] by auto
  next
    case False
    with Cons.prems have "Get_watch p \<in> set es" by simp
    then show ?thesis unfolding zk_run_snd_Cons by (rule Cons.IH)
  qed
qed

lemma recorded_child_watch:
  "GetChildren_watch p \<in> set es \<Longrightarrow> p \<in> set (m_get_child_watch (snd (zk_run es z)))"
proof (induction es arbitrary: z)
  case Nil
  then show ?case by simp
next
  case (Cons e es)
  show ?case
  proof (cases "e = GetChildren_watch p")
    case True
    then have "p \<in> set (m_get_child_watch (snd (zk_step e z)))" by (simp add: set_insert_mem)
    then show ?thesis
      unfolding zk_run_snd_Cons using zk_run_watches_grow [of "snd (zk_step e z)" es] by auto
  next
    case False
    with Cons.prems have "GetChildren_watch p \<in> set es" by simp
    then show ?thesis unfolding zk_run_snd_Cons by (rule Cons.IH)
  qed
qed

lemma recorded_exist_watch:
  "Exists_watch p \<in> set es \<Longrightarrow> p \<in> set (m_exist_watch (snd (zk_run es z)))"
proof (induction es arbitrary: z)
  case Nil
  then show ?case by simp
next
  case (Cons e es)
  show ?case
  proof (cases "e = Exists_watch p")
    case True
    then have "p \<in> set (m_exist_watch (snd (zk_step e z)))" by (simp add: set_insert_mem)
    then show ?thesis
      unfolding zk_run_snd_Cons using zk_run_watches_grow [of "snd (zk_step e z)" es] by auto
  next
    case False
    with Cons.prems have "Exists_watch p \<in> set es" by simp
    then show ?thesis unfolding zk_run_snd_Cons by (rule Cons.IH)
  qed
qed

lemma recovery_requests:
  "session z = Connected \<Longrightarrow>
   fst (zk_run [Session_expired, AConnect, Session_established] z) = replay z"
  by (simp add: replay_def)

lemma fresh_connect_no_replay:
  "session z = Disconnected \<Longrightarrow> fst (zk_run [AConnect, Session_established] z) = []"
  by simp

text \<open>
  C2. When the session of a connected client expires and a new session is established,
  the client sends, in this order, every recorded credential, every recorded ephemeral
  registration with its stored value and ACL, and a re-arm for every path of the data,
  child and exist watch sets. Every credential added and every watch armed at any
  point of the history before the expiry is among them, also when the watch fired
  afterwards, since a fired watch leaves the sets as they are.
\<close>

theorem session_recovery_replay:
  assumes "z = snd (zk_run history z0)" and "session z = Connected"
  shows "fst (zk_run [Session_expired, AConnect, Session_established] z)
           = map Submit_auth (m_auths_set z)
             @ map Recreate_ephemeral (m_ephemeral_node z)
             @ (map Rearm_get (m_get_watch z)
                @ map Rearm_get_children (m_get_child_watch z)
                @ map Rearm_exists (m_exist_watch z))
         \<and> session (snd (zk_run [Session_expired, AConnect, Session_established] z)) = Connected
         \<and> (AddDigestAuth a \<in> set history \<longrightarrow>
              Submit_auth a \<in> set (fst (zk_run [Session_expired, AConnect, Session_established] z)))
         \<and> (Get_watch p \<in> set history \<longrightarrow>
              Rearm_get p \<in> set (fst (zk_run [Session_expired, AConnect, Session_established] z)))
         \<and> (GetChildren_watch p \<in> set history \<longrightarrow>
              Rearm_get_children p
                \<in> set (fst (zk_run [Session_expired, AConnect, Session_established] z)))
         \<and> (Exists_watch p \<in> set history \<longrightarrow>
              Rearm_exists p \<in> set (fst (zk_run [Session_expired, AConnect, Session_established] z)))"
proof -
  have r: "fst (zk_run [Session_expired, AConnect, Session_established] z) = replay z"
    using assms(2) by (rule recovery_requests)
  have s: "session (snd (zk_run [Session_expired, AConnect, Session_established] z)) = Connected"
    using assms(2) by simp
  have a: "AddDigestAuth a \<in> set history \<Longrightarrow> Submit_auth a \<in> set (replay z)"
    unfolding assms(1) by (simp add: replay_def recorded_auth)
  have g: "Get_watch p \<in> set history \<Longrightarrow> Rearm_get p \<in> set (replay z)"
    unfolding assms(1) by (simp add: replay_def recorded_get_watch)
  have c: "GetChildren_watch p \<in> set history \<Longrightarrow> Rearm_get_children p \<in> set (replay z)"
    unfolding assms(1) by (simp add: replay_def recorded_child_watch)
  have e: "Exists_watch p \<in> set history \<Longrightarrow> Rearm_exists p \<in> set (replay z)"
    unfolding assms(1) by (simp add: replay_def recorded_exist_watch)
  show ?thesis
    unfolding r using s a g c e by (simp add: replay_def)
qed


theorem session_recovery_replay_witness:
  "session
     (snd (zk_run
             [AConnect, Session_established, AddDigestAuth ''u:p'',
              Create_ephemeral \<lparr>node_path = ''/a/b'', node_value = ''v'', node_acl_vec = []\<rparr>,
              Exists_watch ''/a/c'', Watch_fired ''/a/c'']
             ZookeeperClient_new)) = Connected
   \<and> fst (zk_run [Session_expired, AConnect, Session_established]
        (snd (zk_run
                [AConnect, Session_established, AddDigestAuth ''u:p'',
                 Create_ephemeral \<lparr>node_path = ''/a/b'', node_value = ''v'', node_acl_vec = []\<rparr>,
                 Exists_watch ''/a/c'', Watch_fired ''/a/c'']
                ZookeeperClient_new)))
     = [Submit_auth ''u:p'',
        Recreate_ephemeral \<lparr>node_path = ''/a/b'', node_value = ''v'', node_acl_vec = []\<rparr>,
        Rearm_exists ''/a/c'']"
  using session_recovery_replay
          [of "snd (zk_run
                [AConnect, Session_established, AddDigestAuth ''u:p'',
                 Create_ephemeral \<lparr>node_path = ''/a/b'', node_value = ''v'', node_acl_vec = []\<rparr>,
                 Exists_watch ''/a/c'', Watch_fired ''/a/c'']
                ZookeeperClient_new)"
              "[AConnect, Session_established, AddDigestAuth ''u:p'',
                 Create_ephemeral \<lparr>node_path = ''/a/b'', node_value = ''v'', node_acl_vec = []\<rparr>,
                 Exists_watch ''/a/c'', Watch_fired ''/a/c'']"
              ZookeeperClient_new "''u:p''" "''/a/c''"]
  by (simp add: ZookeeperClient_new_def record_ephemeral_def replay_def)

end
